theory Spec2Isabelle
  imports Complex_Main "HOL-Library.Word"
begin

section \<open>JavaScript values\<close>

text \<open>
  A JavaScript string is a sequence of 16-bit code units. String literals of the source are
  written \<open>js ''...''\<close>. Bytes (the elements of a \<open>Uint8Array\<close>) are 8-bit words.
\<close>

type_synonym jsstring = "16 word list"

type_synonym byte = "8 word"

definition js :: "string \<Rightarrow> jsstring" where
  "js s = map (\<lambda>c. of_nat (of_char c)) s"

text \<open>
  The values \<open>JSON.parse\<close> produces. \<open>JObj\<close> lists the properties of the parsed object; a
  property is looked up with \<open>map_of\<close>. The value \<open>undefined\<close> is \<open>None\<close> of \<open>json option\<close>.
  A number is its value, or one of the two infinities that \<open>JSON.parse\<close> yields for a literal
  beyond the range of a double, such as \<open>1e309\<close>. \<open>JSON.parse\<close> never yields \<open>NaN\<close>, so zero is
  the only falsy number.
\<close>

datatype number = Finite rat | PlusInfinity | MinusInfinity

datatype json =
    JNull
  | JBool bool
  | JNum number
  | JStr jsstring
  | JArr "json list"
  | JObj "(jsstring \<times> json) list"

text \<open>The test \<open>!x\<close> is \<open>\<not> truthy x\<close>.\<close>

fun truthy :: "json option \<Rightarrow> bool" where
  "truthy None = False"
| "truthy (Some JNull) = False"
| "truthy (Some (JBool b)) = b"
| "truthy (Some (JNum x)) = (x \<noteq> Finite 0)"
| "truthy (Some (JStr s)) = (s \<noteq> [])"
| "truthy (Some (JArr xs)) = True"
| "truthy (Some (JObj kvs)) = True"

text \<open>
  Optional chaining \<open>x?.k\<close> for the keys the handlers read (\<open>record\<close>, \<open>id\<close>,
  \<open>input_image_url\<close>, \<open>status\<close>, \<open>data\<close>, \<open>url\<close>): none of them is a built-in property of a
  string, number, boolean or array, so only an object can answer.
\<close>

fun member :: "json option \<Rightarrow> jsstring \<Rightarrow> json option" where
  "member (Some (JObj kvs)) k = map_of kvs k"
| "member v k = None"

text \<open>The access \<open>x?.[0]\<close>: the first element of an array, the property \<open>"0"\<close> of an object,
  the first code unit of a string.\<close>

fun index0 :: "json option \<Rightarrow> json option" where
  "index0 (Some (JArr (x # xs))) = Some x"
| "index0 (Some (JObj kvs)) = map_of kvs (js ''0'')"
| "index0 (Some (JStr (c # cs))) = Some (JStr [c])"
| "index0 v = None"

text \<open>
  A value as its receiver reads it after \<open>JSON.stringify\<close>, which is how the store client sends
  the object of an update and how \<open>NextResponse.json\<close> sends a body: an infinite number is
  written as \<open>null\<close>, everything else as it is.
\<close>

primrec serialise :: "json \<Rightarrow> json" where
  "serialise JNull = JNull"
| "serialise (JBool b) = JBool b"
| "serialise (JNum n) = (case n of Finite q \<Rightarrow> JNum (Finite q) | PlusInfinity \<Rightarrow> JNull | MinusInfinity \<Rightarrow> JNull)"
| "serialise (JStr s) = JStr s"
| "serialise (JArr xs) = JArr (map serialise xs)"
| "serialise (JObj kvs) = JObj (map (map_prod id serialise) kvs)"

text \<open>A non-negative integer in a template literal: its decimal digits.\<close>

function show_nat :: "nat \<Rightarrow> jsstring" where
  "show_nat n = (if n < 10 then [of_nat (48 + n)] else show_nat (n div 10) @ [of_nat (48 + n mod 10)])"
  by pat_completeness auto
termination
  by (relation "measure id") auto

declare show_nat.simps [simp del]

section \<open>Inline image payloads\<close>

subsection \<open>The platform's \<open>atob\<close>\<close>

text \<open>
  \<open>atob\<close> is the platform's forgiving base64 decoder: it drops ASCII whitespace, drops one or
  two trailing \<open>=\<close> when the length is a multiple of four, fails on a length of 1 modulo 4 or
  on a code unit outside the alphabet, and otherwise turns every six bits into output, four
  characters giving three bytes, and discards the bits left over at the end. The result is a
  binary string, one code unit below 256 for each byte. \<open>None\<close> is the exception it throws.
\<close>

definition is_ascii_whitespace :: "16 word \<Rightarrow> bool" where
  "is_ascii_whitespace c = (c = 9 \<or> c = 10 \<or> c = 12 \<or> c = 13 \<or> c = 32)"

definition b64_value :: "16 word \<Rightarrow> nat option" where
  "b64_value c =
     (let n = unat c in
      if 65 \<le> n \<and> n \<le> 90 then Some (n - 65)
      else if 97 \<le> n \<and> n \<le> 122 then Some (n - 71)
      else if 48 \<le> n \<and> n \<le> 57 then Some (n + 4)
      else if n = 43 then Some 62
      else if n = 47 then Some 63
      else None)"

definition strip_padding :: "jsstring \<Rightarrow> jsstring" where
  "strip_padding d =
     (if 2 \<le> length d \<and> last d = 61 \<and> last (butlast d) = 61 then butlast (butlast d)
      else if d \<noteq> [] \<and> last d = 61 then butlast d
      else d)"

fun decode_sextets :: "nat list \<Rightarrow> byte list" where
  "decode_sextets (a # b # c # d # rest) =
     (let n = ((a * 64 + b) * 64 + c) * 64 + d
      in of_nat (n div 65536) # of_nat (n div 256) # of_nat n # decode_sextets rest)"
| "decode_sextets [a, b, c] =
     (let n = ((a * 64 + b) * 64 + c) div 4
      in [of_nat (n div 256), of_nat n])"
| "decode_sextets [a, b] = [of_nat ((a * 64 + b) div 16)]"
| "decode_sextets v = []"

definition atob :: "jsstring \<Rightarrow> jsstring option" where
  "atob data =
     (let d1 = filter (\<lambda>c. \<not> is_ascii_whitespace c) data;
          d2 = (if length d1 mod 4 = 0 then strip_padding d1 else d1)
      in if length d2 mod 4 = 1 then None
         else (case those (map b64_value d2) of
                 None \<Rightarrow> None
               | Some vs \<Rightarrow> Some (map ucast (decode_sextets vs))))"

subsection \<open>The decoder of the handler\<close>

text \<open>
  The regular expression \<open>/^data:([A-Za-z-+/]+);base64,(.+)$/\<close>. The class holds the letters
  and the three characters \<open>-\<close>, \<open>+\<close>, \<open>/\<close>. Since \<open>;\<close> is not in the class, the first
  group is the longest run of class characters after \<open>data:\<close>, and the literal \<open>;base64,\<close>
  must follow it at once. The second group is the rest of the string up to its end: without
  the \<open>s\<close> flag \<open>.\<close> matches every code unit but the four line terminators, and without the
  \<open>m\<close> flag \<open>$\<close> is the end of the string.
\<close>

definition is_mime_char :: "16 word \<Rightarrow> bool" where
  "is_mime_char c = ((65 \<le> c \<and> c \<le> 90) \<or> (97 \<le> c \<and> c \<le> 122) \<or> c = 45 \<or> c = 43 \<or> c = 47)"

definition is_line_terminator :: "16 word \<Rightarrow> bool" where
  "is_line_terminator c = (c = 10 \<or> c = 13 \<or> c = 8232 \<or> c = 8233)"

definition startsWith :: "jsstring \<Rightarrow> jsstring \<Rightarrow> bool" where
  "startsWith s p = (take (length p) s = p)"

definition match_data_url :: "jsstring \<Rightarrow> (jsstring \<times> jsstring) option" where
  "match_data_url s =
     (if \<not> startsWith s (js ''data:'') then None
      else let rest = drop 5 s;
               mime = takeWhile is_mime_char rest;
               after = dropWhile is_mime_char rest
           in if mime = [] then None
              else if \<not> startsWith after (js '';base64,'') then None
              else let payload = drop 8 after
                   in if payload = [] \<or> list_ex is_line_terminator payload then None
                      else Some (mime, payload))"

definition isBase64DataUrl :: "jsstring \<Rightarrow> bool" where
  "isBase64DataUrl url = startsWith url (js ''data:'')"

text \<open>
  The errors of the processing pipeline, by the place that raises them. \<open>Thrown m\<close> is an
  exception of the platform (of \<open>fetch\<close>, \<open>atob\<close>, a body reader, or a call on a value that
  has no such method) with the text the \<open>catch\<close> clause reads from it.
\<close>

datatype error =
    InvalidDataUrl
  | DownloadFailed jsstring
  | OpenAIError nat jsstring
  | NoResultUrl
  | UpdateFailed jsstring
  | Thrown jsstring

fun error_text :: "error \<Rightarrow> jsstring" where
  "error_text InvalidDataUrl = js ''Invalid data URL format''"
| "error_text (DownloadFailed statusText) = js ''Failed to download input image: '' @ statusText"
| "error_text (OpenAIError status errorText) =
     js ''OpenAI API error: '' @ show_nat status @ js '' '' @ errorText"
| "error_text NoResultUrl = js ''OpenAI API did not return a result image URL''"
| "error_text (UpdateFailed m) = js ''Failed to update job in Supabase: '' @ m"
| "error_text (Thrown m) = m"

text \<open>A \<open>Blob\<close>: its bytes and its \<open>type\<close>. The constructor \<open>new Blob([bytes], {type})\<close> keeps
  the bytes; it turns a type with a code unit outside U+0020 to U+007E into the empty string and
  puts any other type into ASCII lower case.\<close>

record blob =
  blob_bytes :: "byte list"
  blob_type :: jsstring

definition is_ascii_upper :: "16 word \<Rightarrow> bool" where
  "is_ascii_upper c = (65 \<le> c \<and> c \<le> 90)"

definition ascii_lower :: "16 word \<Rightarrow> 16 word" where
  "ascii_lower c = (if is_ascii_upper c then c + 32 else c)"

definition new_Blob :: "byte list \<Rightarrow> jsstring \<Rightarrow> blob" where
  "new_Blob bytes t =
     \<lparr>blob_bytes = bytes,
      blob_type = (if list_ex (\<lambda>c. c < 32 \<or> 126 < c) t then [] else map ascii_lower t)\<rparr>"

text \<open>The loop that copies the binary string into a \<open>Uint8Array\<close> of the same length; a
  store into a \<open>Uint8Array\<close> keeps the low eight bits.\<close>

function fill_bytes :: "jsstring \<Rightarrow> nat \<Rightarrow> byte list \<Rightarrow> byte list" where
  "fill_bytes binaryString i bytes =
     (if i < length binaryString
      then fill_bytes binaryString (Suc i) (bytes[i := ucast (binaryString ! i)])
      else bytes)"
  by pat_completeness auto
termination
  by (relation "measure (\<lambda>(s, i, bytes). length s - i)") auto

declare fill_bytes.simps [simp del]

definition base64DataUrlToBlob :: "jsstring \<Rightarrow> jsstring \<Rightarrow> error + blob" where
  "base64DataUrlToBlob atob_message dataUrl =
     (case match_data_url dataUrl of
        None \<Rightarrow> Inl InvalidDataUrl
      | Some (mimeType, base64Data) \<Rightarrow>
          (case atob base64Data of
             None \<Rightarrow> Inl (Thrown atob_message)
           | Some binaryString \<Rightarrow>
               Inr (new_Blob (fill_bytes binaryString 0 (replicate (length binaryString) 0))
                      mimeType)))"

subsection \<open>Standard base64 and data URLs, for the round trip\<close>

text \<open>
  The encoder is not part of the handler: it is the standard base64 encoding with padding,
  and the data URL built from a media type and the encoded bytes.
\<close>

definition b64_char :: "nat \<Rightarrow> 16 word" where
  "b64_char n =
     (if n < 26 then of_nat (65 + n)
      else if n < 52 then of_nat (71 + n)
      else if n < 62 then of_nat (n - 4)
      else if n = 62 then 43
      else 47)"

fun sextets :: "byte list \<Rightarrow> nat list" where
  "sextets (a # b # c # rest) =
     (let n = (unat a * 256 + unat b) * 256 + unat c
      in n div 262144 # n div 4096 mod 64 # n div 64 mod 64 # n mod 64 # sextets rest)"
| "sextets [a, b] =
     (let n = (unat a * 256 + unat b) * 4
      in [n div 4096, n div 64 mod 64, n mod 64])"
| "sextets [a] = (let n = unat a * 16 in [n div 64, n mod 64])"
| "sextets [] = []"

definition base64_encode :: "byte list \<Rightarrow> jsstring" where
  "base64_encode bs = map b64_char (sextets bs) @ replicate ((3 - length bs mod 3) mod 3) 61"

definition encode_data_url :: "jsstring \<Rightarrow> byte list \<Rightarrow> jsstring" where
  "encode_data_url mime bs = js ''data:'' @ mime @ js '';base64,'' @ base64_encode bs"

text \<open>The shape \<open>data:<mime>;base64,<payload>\<close>, stated on the string itself.\<close>

definition data_url_shape :: "jsstring \<Rightarrow> jsstring \<Rightarrow> jsstring \<Rightarrow> bool" where
  "data_url_shape s mime payload =
     (s = js ''data:'' @ mime @ js '';base64,'' @ payload \<and>
      mime \<noteq> [] \<and> list_all is_mime_char mime \<and> payload \<noteq> [])"

section \<open>The store, the network and the clock\<close>

text \<open>
  A row of the table \<open>jobs\<close> maps column names to values; the table maps the value that
  \<open>.eq("id", id)\<close> compares to the row it selects. An update sets the columns of its object
  and leaves the others as they are.
\<close>

type_synonym row = "jsstring \<rightharpoonup> json"

type_synonym patch = "(jsstring \<times> json) list"

record image_response =
  img_ok :: bool
  img_statusText :: jsstring
  img_blob :: "jsstring + blob"

record api_response =
  api_ok :: bool
  api_status :: nat
  api_text :: "jsstring + jsstring"
  api_json :: "jsstring + json"

datatype form_part =
    FileField jsstring blob jsstring
  | TextField jsstring jsstring

record api_request =
  req_url :: jsstring
  req_method :: jsstring
  req_authorization :: jsstring
  req_body :: "form_part list"

text \<open>The three places of a handler that update the row.\<close>

datatype update_site = ToProcessing | ToComplete | ToFailed

text \<open>
  What the outside world answers during one delivery. No call site of a handler runs twice
  in a delivery, so one answer for each is enough. A query of the store client resolves to a
  result with an \<open>error\<close> field and does not throw; \<open>fetch\<close> and the body readers either
  throw (\<open>Inl\<close>, with the text of the exception) or return.
\<close>

record env =
  select_failure :: "jsstring option"
  no_rows_message :: jsstring
  update_failure :: "update_site \<Rightarrow> jsstring option"
  toISOString :: "update_site \<Rightarrow> jsstring"
  http_get :: "json \<Rightarrow> jsstring + image_response"
  http_post :: "api_request \<Rightarrow> jsstring + api_response"
  atob_message :: jsstring
  not_a_function_message :: jsstring

text \<open>The calls a handler issues, in order, and the table they act on.\<close>

datatype call =
    Select json
  | Update json patch
  | HttpGet json
  | ApiPost api_request

record world =
  db :: "json \<rightharpoonup> row"
  calls :: "call list"

record response =
  status_code :: nat
  body :: "(jsstring \<times> json) list"

text \<open>\<open>supabase.from("jobs").select("*").eq("id", id).single()\<close>: the pair \<open>(data, error)\<close>.\<close>

definition supabase_select :: "env \<Rightarrow> json \<Rightarrow> world \<Rightarrow> (row option \<times> jsstring option) \<times> world" where
  "supabase_select e id' w =
     (let w' = w\<lparr>calls := calls w @ [Select id']\<rparr>
      in case select_failure e of
           Some m \<Rightarrow> ((None, Some m), w')
         | None \<Rightarrow>
             (case db w id' of
                None \<Rightarrow> ((None, Some (no_rows_message e)), w')
              | Some r \<Rightarrow> ((Some r, None), w')))"

text \<open>\<open>supabase.from("jobs").update(patch).eq("id", id)\<close>: the \<open>error\<close> of the result. The
  row receives the values of the object as serialised. An update that reports an error changes
  nothing; one that selects no row changes nothing and reports no error.\<close>

definition supabase_update ::
    "env \<Rightarrow> update_site \<Rightarrow> json \<Rightarrow> patch \<Rightarrow> world \<Rightarrow> jsstring option \<times> world" where
  "supabase_update e site id' p w =
     (let w' = w\<lparr>calls := calls w @ [Update id' p]\<rparr>
      in case update_failure e site of
           Some m \<Rightarrow> (Some m, w')
         | None \<Rightarrow>
             (None, w'\<lparr>db := (case db w id' of
                                None \<Rightarrow> db w
                              | Some r \<Rightarrow>
                                  (db w)(id' \<mapsto> r ++ map_of (map (map_prod id serialise) p)))\<rparr>))"

section \<open>The handler of \<open>app/api/webhook/process-job/route.ts\<close>\<close>

text \<open>\<open>NextResponse.json(b, {status: s})\<close>: the body holds the values as serialised.\<close>

definition json_response :: "(jsstring \<times> json) list \<Rightarrow> nat \<Rightarrow> response" where
  "json_response b s = \<lparr>status_code = s, body = map (map_prod id serialise) b\<rparr>"

text \<open>
  The check \<open>!body?.record?.id || !body?.record?.input_image_url || !body?.record?.status\<close>
  together with the destructuring that follows it: the three values when all are truthy.
\<close>

definition required_fields :: "json \<Rightarrow> (json \<times> json \<times> json) option" where
  "required_fields b =
     (let r = member (Some b) (js ''record'')
      in if \<not> truthy (member r (js ''id'')) \<or> \<not> truthy (member r (js ''input_image_url''))
            \<or> \<not> truthy (member r (js ''status''))
         then None
         else (case (member r (js ''id''), member r (js ''input_image_url''), member r (js ''status'')) of
                 (Some id', Some input_image_url, Some status) \<Rightarrow> Some (id', input_image_url, status)
               | _ \<Rightarrow> None))"

text \<open>Lines 74 to 89: the image, decoded from the data URL or downloaded. A value that is
  no string has no \<open>startsWith\<close>, and the call throws.\<close>

definition acquire_image :: "env \<Rightarrow> json \<Rightarrow> world \<Rightarrow> (error + blob) \<times> world" where
  "acquire_image e input_image_url w =
     (case input_image_url of
        JStr url \<Rightarrow>
          if isBase64DataUrl url then (base64DataUrlToBlob (atob_message e) url, w)
          else
            (let w1 = w\<lparr>calls := calls w @ [HttpGet input_image_url]\<rparr>
             in case http_get e input_image_url of
                  Inl m \<Rightarrow> (Inl (Thrown m), w1)
                | Inr imageResponse \<Rightarrow>
                    if \<not> img_ok imageResponse
                    then (Inl (DownloadFailed (img_statusText imageResponse)), w1)
                    else (case img_blob imageResponse of
                            Inl m \<Rightarrow> (Inl (Thrown m), w1)
                          | Inr imageBlob \<Rightarrow> (Inr imageBlob, w1)))
      | _ \<Rightarrow> (Inl (Thrown (not_a_function_message e)), w))"

definition variations_request :: "jsstring \<Rightarrow> blob \<Rightarrow> jsstring \<Rightarrow> api_request" where
  "variations_request key imageBlob filename =
     \<lparr>req_url = js ''https://api.openai.com/v1/images/variations'',
      req_method = js ''POST'',
      req_authorization = js ''Bearer '' @ key,
      req_body = [FileField (js ''image'') imageBlob filename,
                  TextField (js ''n'') (js ''1''),
                  TextField (js ''size'') (js ''1024x1024'')]\<rparr>"

text \<open>Lines 91 to 116: the call of the image API and the result URL
  \<open>openAIResult?.data?.[0]?.url\<close>.\<close>

definition submit_image ::
    "jsstring \<Rightarrow> env \<Rightarrow> blob \<Rightarrow> jsstring \<Rightarrow> world \<Rightarrow> (error + json) \<times> world" where
  "submit_image key e imageBlob filename w =
     (let request = variations_request key imageBlob filename;
          w1 = w\<lparr>calls := calls w @ [ApiPost request]\<rparr>
      in case http_post e request of
           Inl m \<Rightarrow> (Inl (Thrown m), w1)
         | Inr openAIResponse \<Rightarrow>
             if \<not> api_ok openAIResponse
             then (case api_text openAIResponse of
                     Inl m \<Rightarrow> (Inl (Thrown m), w1)
                   | Inr errorText \<Rightarrow> (Inl (OpenAIError (api_status openAIResponse) errorText), w1))
             else (case api_json openAIResponse of
                     Inl m \<Rightarrow> (Inl (Thrown m), w1)
                   | Inr openAIResult \<Rightarrow>
                       (case member (index0 (member (Some openAIResult) (js ''data''))) (js ''url'') of
                          None \<Rightarrow> (Inl NoResultUrl, w1)
                        | Some resultImageUrl \<Rightarrow>
                            if \<not> truthy (Some resultImageUrl) then (Inl NoResultUrl, w1)
                            else (Inr resultImageUrl, w1))))"

text \<open>The body of the inner \<open>try\<close>, lines 73 to 135: \<open>Inr\<close> the result URL it returns with
  status 200, \<open>Inl\<close> the error that reaches the inner \<open>catch\<close>.\<close>

definition process_job :: "jsstring \<Rightarrow> env \<Rightarrow> json \<Rightarrow> json \<Rightarrow> world \<Rightarrow> (error + json) \<times> world" where
  "process_job key e id' input_image_url w =
     (case acquire_image e input_image_url w of
        (Inl err, w1) \<Rightarrow> (Inl err, w1)
      | (Inr imageBlob, w1) \<Rightarrow>
          (case submit_image key e imageBlob (js ''input.png'') w1 of
             (Inl err, w2) \<Rightarrow> (Inl err, w2)
           | (Inr resultImageUrl, w2) \<Rightarrow>
               (case supabase_update e ToComplete id'
                       [(js ''status'', JStr (js ''complete'')),
                        (js ''result_image_url'', resultImageUrl),
                        (js ''processed_at'', JStr (toISOString e ToComplete))] w2 of
                  (Some m, w3) \<Rightarrow> (Inl (UpdateFailed m), w3)
                | (None, w3) \<Rightarrow> (Inr resultImageUrl, w3))))"

text \<open>The request is the outcome of \<open>req.json()\<close>: the parsed body, or \<open>Inl\<close> the text of the
  exception that a malformed body raises, which only the outer \<open>catch\<close> sees.\<close>

type_synonym request = "jsstring + json"

definition POST :: "jsstring \<Rightarrow> env \<Rightarrow> request \<Rightarrow> world \<Rightarrow> response \<times> world" where
  "POST key e req w =
     (case req of
        Inl m \<Rightarrow>
          (json_response [(js ''error'', JStr (js ''Internal server error'')),
                          (js ''details'', JStr m)] 500, w)
      | Inr b \<Rightarrow>
          (case required_fields b of
             None \<Rightarrow>
               (json_response [(js ''error'', JStr (js ''Invalid payload: Missing required fields''))] 400, w)
           | Some (id', input_image_url, status) \<Rightarrow>
               if status \<noteq> JStr (js ''pending'')
               then (json_response
                       [(js ''message'', JStr (js ''Job is not in pending status; no action taken.''))] 200, w)
               else
                 (case supabase_select e id' w of
                    ((job, fetchError), w1) \<Rightarrow>
                      if fetchError \<noteq> None \<or> job = None
                      then (json_response
                              ((js ''error'', JStr (js ''Failed to fetch job from Supabase''))
                               # (case fetchError of None \<Rightarrow> [] | Some m \<Rightarrow> [(js ''details'', JStr m)]))
                              500, w1)
                      else
                        (case supabase_update e ToProcessing id'
                                [(js ''status'', JStr (js ''processing''))] w1 of
                           (ignored, w2) \<Rightarrow>
                             (case process_job key e id' input_image_url w2 of
                                (Inr resultImageUrl, w3) \<Rightarrow>
                                  (json_response
                                     [(js ''message'', JStr (js ''Job processed successfully'')),
                                      (js ''result_image_url'', resultImageUrl)] 200, w3)
                              | (Inl processError, w3) \<Rightarrow>
                                  (case supabase_update e ToFailed id'
                                          [(js ''status'', JStr (js ''failed'')),
                                           (js ''error_message'', JStr (error_text processError)),
                                           (js ''processed_at'', JStr (toISOString e ToFailed))] w3 of
                                     (ignored', w4) \<Rightarrow>
                                       (json_response
                                          [(js ''error'', JStr (js ''Job processing failed'')),
                                           (js ''details'', JStr (error_text processError))] 500, w4)))))))"

section \<open>The handler of the second source file\<close>

text \<open>
  The second file holds a handler of the same name. It downloads every \<open>input_image_url\<close>,
  names the upload \<open>image.png\<close>, and writes no \<open>processed_at\<close>.
\<close>

definition acquire_image_2 :: "env \<Rightarrow> json \<Rightarrow> world \<Rightarrow> (error + blob) \<times> world" where
  "acquire_image_2 e input_image_url w =
     (let w1 = w\<lparr>calls := calls w @ [HttpGet input_image_url]\<rparr>
      in case http_get e input_image_url of
           Inl m \<Rightarrow> (Inl (Thrown m), w1)
         | Inr imageResponse \<Rightarrow>
             if \<not> img_ok imageResponse
             then (Inl (DownloadFailed (img_statusText imageResponse)), w1)
             else (case img_blob imageResponse of
                     Inl m \<Rightarrow> (Inl (Thrown m), w1)
                   | Inr imageBlob \<Rightarrow> (Inr imageBlob, w1)))"

definition process_job_2 :: "jsstring \<Rightarrow> env \<Rightarrow> json \<Rightarrow> json \<Rightarrow> world \<Rightarrow> (error + json) \<times> world" where
  "process_job_2 key e id' input_image_url w =
     (case acquire_image_2 e input_image_url w of
        (Inl err, w1) \<Rightarrow> (Inl err, w1)
      | (Inr imageBlob, w1) \<Rightarrow>
          (case submit_image key e imageBlob (js ''image.png'') w1 of
             (Inl err, w2) \<Rightarrow> (Inl err, w2)
           | (Inr resultImageUrl, w2) \<Rightarrow>
               (case supabase_update e ToComplete id'
                       [(js ''status'', JStr (js ''complete'')),
                        (js ''result_image_url'', resultImageUrl)] w2 of
                  (Some m, w3) \<Rightarrow> (Inl (UpdateFailed m), w3)
                | (None, w3) \<Rightarrow> (Inr resultImageUrl, w3))))"

definition POST_2 :: "jsstring \<Rightarrow> env \<Rightarrow> request \<Rightarrow> world \<Rightarrow> response \<times> world" where
  "POST_2 key e req w =
     (case req of
        Inl m \<Rightarrow>
          (json_response [(js ''error'', JStr (js ''Internal server error'')),
                          (js ''details'', JStr m)] 500, w)
      | Inr b \<Rightarrow>
          (case required_fields b of
             None \<Rightarrow>
               (json_response [(js ''error'', JStr (js ''Invalid payload: Missing required fields''))] 400, w)
           | Some (id', input_image_url, status) \<Rightarrow>
               if status \<noteq> JStr (js ''pending'')
               then (json_response
                       [(js ''message'', JStr (js ''Job is not in pending status; no action taken.''))] 200, w)
               else
                 (case supabase_select e id' w of
                    ((job, fetchError), w1) \<Rightarrow>
                      if fetchError \<noteq> None \<or> job = None
                      then (json_response
                              ((js ''error'', JStr (js ''Failed to fetch job from Supabase''))
                               # (case fetchError of None \<Rightarrow> [] | Some m \<Rightarrow> [(js ''details'', JStr m)]))
                              500, w1)
                      else
                        (case supabase_update e ToProcessing id'
                                [(js ''status'', JStr (js ''processing''))] w1 of
                           (ignored, w2) \<Rightarrow>
                             (case process_job_2 key e id' input_image_url w2 of
                                (Inr resultImageUrl, w3) \<Rightarrow>
                                  (json_response
                                     [(js ''message'', JStr (js ''Job processed successfully'')),
                                      (js ''result_image_url'', resultImageUrl)] 200, w3)
                              | (Inl processError, w3) \<Rightarrow>
                                  (case supabase_update e ToFailed id'
                                          [(js ''status'', JStr (js ''failed'')),
                                           (js ''error_message'', JStr (error_text processError))] w3 of
                                     (ignored', w4) \<Rightarrow>
                                       (json_response
                                          [(js ''error'', JStr (js ''Job processing failed'')),
                                           (js ''details'', JStr (error_text processError))] 500, w4)))))))"

section \<open>Sequences of deliveries\<close>

text \<open>Deliveries handled one after the other, each with its own answers of the outside
  world; the result is the world after the last one.\<close>

fun deliver ::
    "(env \<Rightarrow> request \<Rightarrow> world \<Rightarrow> response \<times> world) \<Rightarrow> (env \<times> request) list \<Rightarrow> world \<Rightarrow> world" where
  "deliver handler [] w = w"
| "deliver handler ((e, req) # ds) w = deliver handler ds (snd (handler e req w))"

section \<open>Notions used in the statements\<close>

text \<open>A delivery whose payload passes the validation and carries the status \<open>pending\<close>.\<close>

definition payload_pending :: "request \<Rightarrow> bool" where
  "payload_pending req =
     (case req of
        Inl m \<Rightarrow> False
      | Inr b \<Rightarrow> (case required_fields b of
                   None \<Rightarrow> False
                 | Some (i, u, s) \<Rightarrow> s = JStr (js ''pending'')))"

text \<open>A column of a row is populated when it holds a value other than \<open>null\<close>.\<close>

definition populated :: "row \<Rightarrow> jsstring \<Rightarrow> bool" where
  "populated r k = (case r k of None \<Rightarrow> False | Some v \<Rightarrow> v \<noteq> JNull)"

text \<open>A row in a terminal state holds the outcome that belongs to the state, and only it.\<close>

definition one_outcome :: "row \<Rightarrow> bool" where
  "one_outcome r' =
     ((r' (js ''status'') = Some (JStr (js ''complete'')) \<longrightarrow>
         populated r' (js ''result_image_url'') \<and> \<not> populated r' (js ''error_message''))
    \<and> (r' (js ''status'') = Some (JStr (js ''failed'')) \<longrightarrow>
         populated r' (js ''error_message'') \<and> \<not> populated r' (js ''result_image_url'')))"

section \<open>Concrete deliveries\<close>

text \<open>A job, its notification, and answers of the outside world, for evaluating the
  handlers at concrete inputs.\<close>

definition ex_id :: json where
  "ex_id = JStr (js ''job-1'')"

definition ex_payload :: "json \<Rightarrow> json \<Rightarrow> json" where
  "ex_payload url status =
     JObj [(js ''record'', JObj [(js ''id'', ex_id), (js ''input_image_url'', url), (js ''status'', status)])]"

definition ex_remote_url :: json where
  "ex_remote_url = JStr (js ''https://example.com/cat.png'')"

definition ex_row :: "jsstring \<Rightarrow> json \<Rightarrow> row" where
  "ex_row status result =
     map_of [(js ''id'', ex_id), (js ''input_image_url'', ex_remote_url), (js ''status'', JStr status),
             (js ''result_image_url'', result), (js ''error_message'', JNull),
             (js ''processed_at'', JNull)]"

definition ex_world :: "jsstring \<Rightarrow> json \<Rightarrow> world" where
  "ex_world status result = \<lparr>db = [ex_id \<mapsto> ex_row status result], calls = []\<rparr>"

definition ex_blob :: blob where
  "ex_blob = \<lparr>blob_bytes = [137, 80, 78, 71], blob_type = js ''image/png''\<rparr>"

definition ex_result_url :: json where
  "ex_result_url = JStr (js ''https://images.example.com/out.png'')"

definition ex_api_ok :: api_response where
  "ex_api_ok = \<lparr>api_ok = True, api_status = 200, api_text = Inr [],
                 api_json = Inr (JObj [(js ''data'', JArr [JObj [(js ''url'', ex_result_url)]])])\<rparr>"

definition ex_api_over_range :: api_response where
  "ex_api_over_range = \<lparr>api_ok = True, api_status = 200, api_text = Inr [],
                         api_json = Inr (JObj [(js ''data'', JArr [JObj [(js ''url'', JNum PlusInfinity)]])])\<rparr>"

definition ex_api_down :: api_response where
  "ex_api_down = \<lparr>api_ok = False, api_status = 503, api_text = Inr (js ''overloaded''),
                   api_json = Inl (js ''Unexpected token'')\<rparr>"

definition ex_img_ok :: image_response where
  "ex_img_ok = \<lparr>img_ok = True, img_statusText = js ''OK'', img_blob = Inr ex_blob\<rparr>"

definition ex_img_missing :: image_response where
  "ex_img_missing = \<lparr>img_ok = False, img_statusText = js ''Not Found'',
                      img_blob = Inl (js ''body unusable'')\<rparr>"

definition ex_env :: "image_response \<Rightarrow> api_response \<Rightarrow> jsstring option \<Rightarrow> env" where
  "ex_env img api complete_failure =
     \<lparr>select_failure = None,
      no_rows_message = js ''no rows'',
      update_failure = (\<lambda>site. if site = ToComplete then complete_failure else None),
      toISOString = (\<lambda>site. js ''2024-05-01T12:00:00.000Z''),
      http_get = (\<lambda>url. Inr img),
      http_post = (\<lambda>request. Inr api),
      atob_message = js ''The string to be decoded is not correctly encoded.'',
      not_a_function_message = js ''url.startsWith is not a function''\<rparr>"

definition ex_key :: jsstring where
  "ex_key = js ''sk-test''"

section \<open>Properties of the string functions\<close>

subsection \<open>String literals\<close>

lemma unat_js_char: "unat (of_nat (of_char c) :: 16 word) = of_char c"
proof -
  have "(of_char c :: nat) mod 256 = of_char c" by simp
  then have "(of_char c :: nat) < 256" by (metis mod_less_divisor zero_less_numeral)
  then have "(of_char c :: nat) < 65536" by linarith
  then have "(of_char c :: nat) mod 65536 = of_char c" by (rule mod_less)
  then show ?thesis by (simp add: unat_of_nat)
qed

lemma js_eq_iff [simp]: "js a = js b \<longleftrightarrow> a = b"
proof -
  have "inj (\<lambda>c. of_nat (of_char c) :: 16 word)"
    by (rule injI) (metis unat_js_char of_char_eq_iff)
  then show ?thesis by (simp add: js_def inj_map_eq_map)
qed

lemma length_js [simp]: "length (js s) = length s"
  by (simp add: js_def)

lemma js_eq_Nil [simp]: "js s = [] \<longleftrightarrow> s = []"
  by (simp add: js_def)

lemma Nil_eq_js [simp]: "[] = js s \<longleftrightarrow> s = []"
  by (simp add: js_def)

lemma js_append: "js a @ js b = js (a @ b)"
  by (simp add: js_def)

lemma take_js: "take n (js s) = js (take n s)"
  by (simp add: js_def take_map)

lemma startsWith_js: "startsWith (js s) (js p) \<longleftrightarrow> take (length p) s = p"
  by (simp add: startsWith_def take_js)

lemma js_data: "js ''data:'' = [100, 97, 116, 97, 58]"
  by (simp add: js_def)

lemma js_base64: "js '';base64,'' = [59, 98, 97, 115, 101, 54, 52, 44]"
  by (simp add: js_def)

lemma startsWith_append: "startsWith (p @ s) p"
  by (simp add: startsWith_def)

lemma startsWith_split: "startsWith s p \<Longrightarrow> s = p @ drop (length p) s"
  by (metis append_take_drop_id startsWith_def)

subsection \<open>Base64: decoding what the encoder wrote\<close>

lemma unat_of_nat16: "k < 65536 \<Longrightarrow> unat (of_nat k :: 16 word) = k"
  by (simp add: unat_of_nat)

lemma unat_b64_char:
  "n < 64 \<Longrightarrow> unat (b64_char n) =
     (if n < 26 then 65 + n else if n < 52 then 71 + n else if n < 62 then n - 4
      else if n = 62 then 43 else 47)"
  by (simp add: b64_char_def unat_of_nat16 del: of_nat_add of_nat_diff of_nat_numeral)

lemma b64_value_char: "n < 64 \<Longrightarrow> b64_value (b64_char n) = Some n"
  by (auto simp add: b64_value_def unat_b64_char Let_def)

lemma b64_char_not_ws: "n < 64 \<Longrightarrow> \<not> is_ascii_whitespace (b64_char n)"
  using unat_b64_char [of n] by (auto simp: is_ascii_whitespace_def split: if_splits)

lemma b64_char_not_pad: "n < 64 \<Longrightarrow> b64_char n \<noteq> 61"
  using unat_b64_char [of n] by (auto split: if_splits)

lemma b64_char_not_lt: "n < 64 \<Longrightarrow> \<not> is_line_terminator (b64_char n)"
  using unat_b64_char [of n] by (auto simp: is_line_terminator_def split: if_splits)

lemma sextets_lt: "s \<in> set (sextets bs) \<Longrightarrow> s < 64"
proof (induction bs arbitrary: s rule: sextets.induct)
  case (1 a b c rest)
  have "unat a < 256" "unat b < 256" "unat c < 256" using unsigned_less [of a] unsigned_less [of b] unsigned_less [of c] by simp_all
  then have "((unat a * 256 + unat b) * 256 + unat c) div 262144 < 64" by simp
  with 1 show ?case by (auto simp: Let_def)
next
  case (2 a b)
  have "unat a < 256" "unat b < 256" using unsigned_less [of a] unsigned_less [of b] by simp_all
  then have "((unat a * 256 + unat b) * 4) div 4096 < 64" by simp
  with 2 show ?case by (auto simp: Let_def)
next
  case (3 a)
  have "unat a < 256" using unsigned_less [of a] by simp
  then have "(unat a * 16) div 64 < 64" by simp
  with 3 show ?case by (auto simp: Let_def)
qed simp

lemma length_sextets: "length (sextets bs) mod 4 = (case length bs mod 3 of 0 \<Rightarrow> 0 | Suc 0 \<Rightarrow> 2 | _ \<Rightarrow> 3)"
proof (induction bs rule: sextets.induct)
  case (1 a b c rest)
  have "length (a # b # c # rest) mod 3 = length rest mod 3" by simp
  moreover have "length (sextets (a # b # c # rest)) mod 4 = length (sextets rest) mod 4" by (simp add: Let_def)
  ultimately show ?case using 1 by simp
qed (simp_all add: Let_def)

lemma byte_lt: "unat (a :: byte) < 256"
  using unsigned_less [of a] by simp

lemma of_nat_unat_byte: "(of_nat (k * 256 + unat a) :: byte) = a"
proof -
  have "unat (of_nat (k * 256 + unat a) :: byte) = unat a"
    using byte_lt [of a] by (simp add: unat_of_nat del: of_nat_add of_nat_mult)
  then show ?thesis by (simp only: word_unat_eq_iff)
qed

lemma div64_mod64: "(n::nat) div 64 * 64 + n mod 64 = n"
  by simp

lemma recompose4:
  "((n div 262144 * 64 + n div 4096 mod 64) * 64 + n div 64 mod 64) * 64 + n mod 64 = (n::nat)"
proof -
  have 1: "n div 4096 = n div 64 div 64" by (simp add: div_mult2_eq)
  have 2: "n div 262144 = n div 64 div 64 div 64" by (simp add: div_mult2_eq)
  show ?thesis unfolding 1 2 by (simp add: div64_mod64)
qed

lemma recompose3:
  "(n div 4096 * 64 + n div 64 mod 64) * 64 + n mod 64 = (n::nat)"
proof -
  have 1: "n div 4096 = n div 64 div 64" by (simp add: div_mult2_eq)
  show ?thesis unfolding 1 by (simp add: div64_mod64)
qed

lemma decode_sextets_sextets: "decode_sextets (sextets bs) = bs"
proof (induction bs rule: sextets.induct)
  case (1 a b c rest)
  define n where "n = (unat a * 256 + unat b) * 256 + unat c"
  have a: "n div 65536 = 0 * 256 + unat a" using byte_lt [of b] byte_lt [of c] by (simp add: n_def)
  have b: "n div 256 = unat a * 256 + unat b" using byte_lt [of c] by (simp add: n_def)
  have "(of_nat (n div 65536) :: byte) = a" unfolding a by (rule of_nat_unat_byte)
  moreover have "(of_nat (n div 256) :: byte) = b" unfolding b by (rule of_nat_unat_byte)
  moreover have "(of_nat n :: byte) = c" unfolding n_def by (rule of_nat_unat_byte)
  ultimately show ?case using 1
    by (simp only: sextets.simps decode_sextets.simps Let_def n_def [symmetric] recompose4)
next
  case (2 a b)
  define n where "n = (unat a * 256 + unat b) * 4"
  have m: "n div 4 = unat a * 256 + unat b" by (simp add: n_def)
  have a: "(unat a * 256 + unat b) div 256 = 0 * 256 + unat a" using byte_lt [of b] by simp
  have "(of_nat ((unat a * 256 + unat b) div 256) :: byte) = a" unfolding a by (rule of_nat_unat_byte)
  moreover have "(of_nat (unat a * 256 + unat b) :: byte) = b" by (rule of_nat_unat_byte)
  ultimately show ?case
    by (simp only: sextets.simps decode_sextets.simps Let_def n_def [symmetric] recompose3 m)
next
  case (3 a)
  define n where "n = unat a * 16"
  have m: "n div 16 = 0 * 256 + unat a" by (simp add: n_def)
  have "(of_nat (0 * 256 + unat a) :: byte) = a" by (rule of_nat_unat_byte)
  then show ?case
    by (simp only: sextets.simps decode_sextets.simps Let_def n_def [symmetric] div64_mod64 m)
next
  case 4
  show ?case by simp
qed

lemma strip_padding_encoded:
  assumes "p \<le> 2" "\<forall>x\<in>set xs. x \<noteq> 61"
  shows "strip_padding (xs @ replicate p 61) = xs"
proof -
  consider "p = 0" | "p = 1" | "p = 2" using assms(1) by linarith
  then show ?thesis
  proof cases
    case 1
    with assms(2) show ?thesis by (cases xs rule: rev_cases) (auto simp: strip_padding_def)
  next
    case 2
    with assms(2) show ?thesis by (cases xs rule: rev_cases) (auto simp: strip_padding_def butlast_append)
  next
    case 3
    then have "replicate p (61 :: 16 word) = [61, 61]" by (simp add: numeral_2_eq_2)
    then show ?thesis by (simp add: strip_padding_def butlast_append)
  qed
qed

lemma those_map_Some: "(\<And>x. x \<in> set xs \<Longrightarrow> f (g x) = Some x) \<Longrightarrow> those (map f (map g xs)) = Some xs"
  by (induction xs) simp_all

lemma ucast_comp_byte: "map ((ucast :: 16 word \<Rightarrow> byte) \<circ> ucast) bs = bs"
  by (induction bs) (simp_all add: ucast_up_ucast_id is_up)

lemma fill_bytes_gen:
  "i \<le> length s \<Longrightarrow> length bytes = length s \<Longrightarrow>
     fill_bytes s i bytes = take i bytes @ map ucast (drop i s)"
proof (induction s i bytes rule: fill_bytes.induct)
  case (1 s i bytes)
  show ?case
  proof (cases "i < length s")
    case True
    then have "fill_bytes s i bytes = fill_bytes s (Suc i) (bytes[i := ucast (s ! i)])"
      by (subst fill_bytes.simps) simp
    also have "\<dots> = take (Suc i) (bytes[i := ucast (s ! i)]) @ map ucast (drop (Suc i) s)"
      using 1 True by simp
    also have "\<dots> = take i bytes @ map ucast (drop i s)"
      using 1(3) True by (simp add: take_Suc_conv_app_nth Cons_nth_drop_Suc [symmetric])
    finally show ?thesis .
  next
    case False
    with 1 show ?thesis by (subst fill_bytes.simps) simp
  qed
qed

lemma fill_bytes_map: "fill_bytes s 0 (replicate (length s) 0) = map ucast s"
  by (simp add: fill_bytes_gen)

lemma pad_not_ws: "\<not> is_ascii_whitespace 61"
  by (simp add: is_ascii_whitespace_def)

lemma encode_no_ws: "c \<in> set (base64_encode bs) \<Longrightarrow> \<not> is_ascii_whitespace c"
  unfolding base64_encode_def using pad_not_ws by (auto dest!: sextets_lt b64_char_not_ws)

lemma length_base64_encode: "length (base64_encode bs) mod 4 = 0"
proof -
  have "length (base64_encode bs) mod 4 = (length (sextets bs) mod 4 + (3 - length bs mod 3) mod 3) mod 4"
    by (simp add: base64_encode_def mod_add_left_eq)
  moreover have "length bs mod 3 = 0 \<or> length bs mod 3 = 1 \<or> length bs mod 3 = 2" by linarith
  ultimately show ?thesis
    using length_sextets [of bs] by auto
qed

lemma atob_base64_encode: "atob (base64_encode bs) = Some (map ucast bs)"
proof -
  let ?xs = "map b64_char (sextets bs)"
  have nows: "filter (\<lambda>c. \<not> is_ascii_whitespace c) (base64_encode bs) = base64_encode bs"
    by (simp add: filter_id_conv encode_no_ws)
  have strip: "strip_padding (base64_encode bs) = ?xs"
    unfolding base64_encode_def by (rule strip_padding_encoded) (auto dest!: sextets_lt b64_char_not_pad)
  have len2: "length ?xs mod 4 \<noteq> 1"
    using length_sextets [of bs] by (auto split: nat.splits)
  have vals: "those (map b64_value ?xs) = Some (sextets bs)"
    by (rule those_map_Some) (auto dest: sextets_lt simp: b64_value_char)
  have d2: "(if length (base64_encode bs) mod 4 = 0 then strip_padding (base64_encode bs)
              else base64_encode bs) = ?xs"
    by (simp add: length_base64_encode strip)
  show ?thesis
    unfolding atob_def Let_def nows d2 using len2 vals by (simp add: decode_sextets_sextets)
qed

subsection \<open>The regular expression and the shape of a data URL\<close>

lemma semicolon_not_mime: "\<not> is_mime_char 59"
  by (simp add: is_mime_char_def)

lemma match_data_url_shape:
  assumes "data_url_shape s mime payload" "\<not> list_ex is_line_terminator payload"
  shows "match_data_url s = Some (mime, payload)"
proof -
  from assms(1) have s: "s = js ''data:'' @ mime @ js '';base64,'' @ payload"
    and mime: "mime \<noteq> []" "\<forall>c\<in>set mime. is_mime_char c" and payload: "payload \<noteq> []"
    by (simp_all add: data_url_shape_def list_all_iff)
  have start: "startsWith s (js ''data:'')" unfolding s by (rule startsWith_append)
  have rest: "drop 5 s = mime @ js '';base64,'' @ payload" by (simp add: s js_data)
  have tw: "takeWhile is_mime_char (mime @ js '';base64,'' @ payload) = mime"
    using mime(2) by (simp add: takeWhile_append2 js_base64 semicolon_not_mime)
  have dw: "dropWhile is_mime_char (mime @ js '';base64,'' @ payload) = js '';base64,'' @ payload"
    using mime(2) by (simp add: dropWhile_append2 js_base64 semicolon_not_mime)
  have st2: "startsWith (js '';base64,'' @ payload) (js '';base64,'')" by (rule startsWith_append)
  have dr: "drop 8 (js '';base64,'' @ payload) = payload" by (simp add: js_base64)
  show ?thesis
    unfolding match_data_url_def Let_def rest tw dw dr
    using start st2 mime(1) payload assms(2) by simp
qed

lemma match_data_url_Some:
  assumes "match_data_url s = Some (mime, payload)"
  shows "data_url_shape s mime payload \<and> \<not> list_ex is_line_terminator payload"
proof -
  let ?rest = "drop 5 s"
  let ?after = "dropWhile is_mime_char ?rest"
  from assms have start: "startsWith s (js ''data:'')"
    and m: "mime = takeWhile is_mime_char ?rest" "mime \<noteq> []"
    and st2: "startsWith ?after (js '';base64,'')"
    and p: "payload = drop 8 ?after" "payload \<noteq> []" "\<not> list_ex is_line_terminator payload"
    by (auto simp: match_data_url_def Let_def split: if_splits)
  have "s = js ''data:'' @ ?rest" using startsWith_split [OF start] by (simp add: eval_nat_numeral)
  also have "?rest = mime @ ?after" by (simp add: m(1))
  also have "?after = js '';base64,'' @ payload" using startsWith_split [OF st2] by (simp add: p(1) eval_nat_numeral)
  finally have "s = js ''data:'' @ mime @ js '';base64,'' @ payload" .
  moreover have "list_all is_mime_char mime"
    unfolding m(1) list_all_iff by (auto dest: set_takeWhileD)
  ultimately show ?thesis using m(2) p(2,3) by (simp add: data_url_shape_def)
qed

lemma match_data_url_iff:
  "match_data_url s = Some (mime, payload) \<longleftrightarrow>
     data_url_shape s mime payload \<and> \<not> list_ex is_line_terminator payload"
  using match_data_url_shape match_data_url_Some by blast

lemma invalid_data_url_iff:
  "base64DataUrlToBlob m s = Inl InvalidDataUrl \<longleftrightarrow>
     \<not> (\<exists>mime payload. data_url_shape s mime payload \<and> \<not> list_ex is_line_terminator payload)"
proof -
  have "base64DataUrlToBlob m s = Inl InvalidDataUrl \<longleftrightarrow> match_data_url s = None"
    by (auto simp: base64DataUrlToBlob_def split: option.splits)
  also have "\<dots> \<longleftrightarrow> \<not> (\<exists>mime payload. match_data_url s = Some (mime, payload))"
    by (cases "match_data_url s") auto
  finally show ?thesis by (simp add: match_data_url_iff)
qed

lemma encode_no_lt: "c \<in> set (base64_encode bs) \<Longrightarrow> \<not> is_line_terminator c"
  unfolding base64_encode_def by (auto dest!: sextets_lt b64_char_not_lt simp: is_line_terminator_def)

lemma base64_encode_nonempty: "bs \<noteq> [] \<Longrightarrow> base64_encode bs \<noteq> []"
  by (cases bs rule: sextets.cases) (simp_all add: base64_encode_def Let_def)

lemma isBase64DataUrl_encode: "isBase64DataUrl (encode_data_url mime bs)"
  by (simp add: isBase64DataUrl_def encode_data_url_def startsWith_def)

lemma mime_char_printable: "is_mime_char c \<Longrightarrow> \<not> (c < 32 \<or> 126 < c)"
  by (auto simp: is_mime_char_def word_le_nat_alt word_less_nat_alt)

lemma new_Blob_mime:
  "list_all is_mime_char mime \<Longrightarrow>
     new_Blob bytes mime = \<lparr>blob_bytes = bytes, blob_type = map ascii_lower mime\<rparr>"
  by (auto simp: new_Blob_def list_all_iff list_ex_iff dest: mime_char_printable)

lemma ascii_lower_id: "list_all (\<lambda>c. \<not> is_ascii_upper c) t \<Longrightarrow> map ascii_lower t = t"
  by (induction t) (simp_all add: ascii_lower_def)

lemma decode_encode_roundtrip:
  assumes "bs \<noteq> []" "mime \<noteq> []" "list_all is_mime_char mime"
  shows "base64DataUrlToBlob m (encode_data_url mime bs) =
           Inr \<lparr>blob_bytes = bs, blob_type = map ascii_lower mime\<rparr>"
proof -
  have "data_url_shape (encode_data_url mime bs) mime (base64_encode bs)"
    using assms by (simp add: data_url_shape_def encode_data_url_def base64_encode_nonempty)
  moreover have "\<not> list_ex is_line_terminator (base64_encode bs)"
    by (auto simp: list_ex_iff dest: encode_no_lt)
  ultimately have "match_data_url (encode_data_url mime bs) = Some (mime, base64_encode bs)"
    by (rule match_data_url_shape)
  moreover have "fill_bytes (map ucast bs) 0 (replicate (length bs) 0) = bs"
    using fill_bytes_map [of "map ucast bs"] by (simp add: ucast_comp_byte)
  ultimately show ?thesis
    using assms(3) by (simp add: base64DataUrlToBlob_def atob_base64_encode new_Blob_mime)
qed

section \<open>Properties of the handlers\<close>

subsection \<open>The calls of the store and of the network\<close>

lemma supabase_select_loaded:
  "select_failure e = None \<Longrightarrow> db w i = Some r \<Longrightarrow>
     supabase_select e i w = ((Some r, None), w\<lparr>calls := calls w @ [Select i]\<rparr>)"
  by (simp add: supabase_select_def Let_def)

lemma supabase_update_calls [simp]:
  "calls (snd (supabase_update e site i p w)) = calls w @ [Update i p]"
  by (simp add: supabase_update_def Let_def split: option.splits)

lemma supabase_update_db:
  "db (snd (supabase_update e site i p w)) =
     (if update_failure e site = None
      then (case db w i of None \<Rightarrow> db w
            | Some r \<Rightarrow> (db w)(i \<mapsto> r ++ map_of (map (map_prod id serialise) p)))
      else db w)"
  by (simp add: supabase_update_def Let_def split: option.splits)

lemma supabase_update_fst [simp]:
  "fst (supabase_update e site i p w) = update_failure e site"
  by (simp add: supabase_update_def Let_def split: option.splits)

text \<open>The row of a pending job after the claim.\<close>

lemma claimed_row:
  "db w i = Some r \<Longrightarrow>
   db (snd (supabase_update e ToProcessing i [(js ''status'', JStr (js ''processing''))]
             (w\<lparr>calls := calls w @ [Select i]\<rparr>))) =
     (db w)(i \<mapsto> (if update_failure e ToProcessing = None
                     then r ++ map_of [(js ''status'', JStr (js ''processing''))] else r))"
  by (auto simp: supabase_update_db)

lemma acquire_image_fst: "fst (acquire_image e u w) = fst (acquire_image e u w')"
  by (simp add: acquire_image_def Let_def split: json.splits sum.splits)

lemma acquire_image_db [simp]: "db (snd (acquire_image e u w)) = db w"
  by (simp add: acquire_image_def Let_def split: json.splits sum.splits)

lemma acquire_image_data_url:
  "isBase64DataUrl s \<Longrightarrow>
     acquire_image e (JStr s) w = (base64DataUrlToBlob (atob_message e) s, w)"
  by (simp add: acquire_image_def)

lemma acquire_image_invalid_data_url:
  "isBase64DataUrl s \<Longrightarrow> match_data_url s = None \<Longrightarrow>
     acquire_image e (JStr s) w = (Inl InvalidDataUrl, w)"
  by (simp add: acquire_image_def base64DataUrlToBlob_def)

lemma acquire_image_download_failed:
  "\<not> isBase64DataUrl s \<Longrightarrow> http_get e (JStr s) = Inr ir \<Longrightarrow> \<not> img_ok ir \<Longrightarrow>
     fst (acquire_image e (JStr s) w) = Inl (DownloadFailed (img_statusText ir))"
  by (simp add: acquire_image_def Let_def)

lemma acquire_image_2_fst: "fst (acquire_image_2 e u w) = fst (acquire_image_2 e u w')"
  by (simp add: acquire_image_2_def Let_def split: sum.splits)

lemma acquire_image_2_db [simp]: "db (snd (acquire_image_2 e u w)) = db w"
  by (simp add: acquire_image_2_def Let_def split: sum.splits)

lemma acquire_image_2_download_failed:
  "http_get e u = Inr ir \<Longrightarrow> \<not> img_ok ir \<Longrightarrow>
     fst (acquire_image_2 e u w) = Inl (DownloadFailed (img_statusText ir))"
  by (simp add: acquire_image_2_def Let_def)

lemma submit_image_fst: "fst (submit_image key e b f w) = fst (submit_image key e b f w')"
  by (simp add: submit_image_def Let_def split: sum.splits option.splits)

lemma submit_image_db [simp]: "db (snd (submit_image key e b f w)) = db w"
  by (simp add: submit_image_def Let_def split: sum.splits option.splits)

lemma submit_image_calls:
  "calls (snd (submit_image key e imageBlob f w)) = calls w @ [ApiPost (variations_request key imageBlob f)]"
  by (simp add: submit_image_def Let_def split: sum.splits option.splits)

lemma submit_image_truthy: "fst (submit_image key e b f w) = Inr u \<Longrightarrow> truthy (Some u)"
  by (simp add: submit_image_def Let_def split: sum.splits option.splits if_splits)

lemma submit_image_Inr:
  "fst (submit_image key e b f w) = Inr x \<Longrightarrow>
     \<exists>resp result. http_post e (variations_request key b f) = Inr resp \<and> api_json resp = Inr result
        \<and> member (index0 (member (Some result) (js ''data''))) (js ''url'') = Some x"
  by (auto simp: submit_image_def Let_def split: sum.splits option.splits if_splits)

lemma serialise_not_null:
  "truthy (Some x) \<Longrightarrow> x \<noteq> JNum PlusInfinity \<Longrightarrow> x \<noteq> JNum MinusInfinity \<Longrightarrow> serialise x \<noteq> JNull"
  by (cases x) (auto split: number.splits)

lemma submit_image_kept:
  assumes "\<forall>request resp result. http_post e request = Inr resp \<and> api_json resp = Inr result \<longrightarrow>
             member (index0 (member (Some result) (js ''data''))) (js ''url'')
               \<notin> {Some (JNum PlusInfinity), Some (JNum MinusInfinity)}"
    and "fst (submit_image key e b f w) = Inr x"
  shows "serialise x \<noteq> JNull"
proof -
  from submit_image_Inr [OF assms(2)] obtain resp result where
    "http_post e (variations_request key b f) = Inr resp" "api_json resp = Inr result"
    "member (index0 (member (Some result) (js ''data''))) (js ''url'') = Some x" by blast
  with assms(1) have "x \<noteq> JNum PlusInfinity" "x \<noteq> JNum MinusInfinity" by auto
  with submit_image_truthy [OF assms(2)] show ?thesis by (rule serialise_not_null)
qed

lemma submit_image_success:
  assumes "http_post e (variations_request key imageBlob f) = Inr resp" "api_ok resp"
    and "api_json resp = Inr result"
    and "member (index0 (member (Some result) (js ''data''))) (js ''url'') = Some x"
    and "truthy (Some x)"
  shows "fst (submit_image key e imageBlob f w) = Inr x"
  using assms by (simp add: submit_image_def Let_def)

lemma submit_image_api_error:
  "http_post e (variations_request key imageBlob f) = Inr resp \<Longrightarrow> \<not> api_ok resp \<Longrightarrow>
   api_text resp = Inr errorText \<Longrightarrow>
     fst (submit_image key e imageBlob f w) = Inl (OpenAIError (api_status resp) errorText)"
  by (simp add: submit_image_def Let_def)

lemma submit_image_no_url:
  "http_post e (variations_request key imageBlob f) = Inr resp \<Longrightarrow> api_ok resp \<Longrightarrow>
   api_json resp = Inr result \<Longrightarrow>
   \<not> truthy (member (index0 (member (Some result) (js ''data''))) (js ''url'')) \<Longrightarrow>
     fst (submit_image key e imageBlob f w) = Inl NoResultUrl"
  by (auto simp: submit_image_def Let_def split: option.splits)

subsection \<open>The processing pipeline\<close>

lemma process_job_outcome:
  "fst (process_job key e i u w) =
     (case fst (acquire_image e u w) of
        Inl err \<Rightarrow> Inl err
      | Inr imageBlob \<Rightarrow>
          (case fst (submit_image key e imageBlob (js ''input.png'') w) of
             Inl err \<Rightarrow> Inl err
           | Inr x \<Rightarrow> (case update_failure e ToComplete of
                         Some m \<Rightarrow> Inl (UpdateFailed m)
                       | None \<Rightarrow> Inr x)))"
proof -
  obtain a w1 where a: "acquire_image e u w = (a, w1)" by (cases "acquire_image e u w")
  show ?thesis
  proof (cases a)
    case (Inl err)
    with a show ?thesis by (simp add: process_job_def)
  next
    case (Inr blob)
    obtain s w2 where s: "submit_image key e blob (js ''input.png'') w1 = (s, w2)"
      by (cases "submit_image key e blob (js ''input.png'') w1")
    then have s': "fst (submit_image key e blob (js ''input.png'') w) = s"
      using submit_image_fst [of key e blob "js ''input.png''" w w1] by simp
    show ?thesis
    proof (cases s)
      case (Inl err)
      with a Inr s s' show ?thesis by (simp add: process_job_def)
    next
      case (Inr x)
      obtain r w3 where up: "supabase_update e ToComplete i
           [(js ''status'', JStr (js ''complete'')), (js ''result_image_url'', x),
            (js ''processed_at'', JStr (toISOString e ToComplete))] w2 = (r, w3)"
        by (cases "supabase_update e ToComplete i
           [(js ''status'', JStr (js ''complete'')), (js ''result_image_url'', x),
            (js ''processed_at'', JStr (toISOString e ToComplete))] w2")
      then have "r = update_failure e ToComplete"
        using supabase_update_fst by (metis fst_conv)
      with a \<open>a = Inr blob\<close> s s' Inr up show ?thesis
        by (simp add: process_job_def split: option.splits)
    qed
  qed
qed

lemma process_job_fst: "fst (process_job key e i u w) = fst (process_job key e i u w')"
proof -
  obtain a w1 where a: "acquire_image e u w = (a, w1)" by (cases "acquire_image e u w")
  obtain a' w1' where a': "acquire_image e u w' = (a', w1')" by (cases "acquire_image e u w'")
  have aa: "a' = a" using acquire_image_fst [of e u w w'] a a' by simp
  show ?thesis
  proof (cases a)
    case (Inl err)
    then show ?thesis using a a' aa by (simp add: process_job_def)
  next
    case (Inr blob)
    obtain s w2 where s: "submit_image key e blob (js ''input.png'') w1 = (s, w2)"
      by (cases "submit_image key e blob (js ''input.png'') w1")
    obtain s' w2' where s': "submit_image key e blob (js ''input.png'') w1' = (s', w2')"
      by (cases "submit_image key e blob (js ''input.png'') w1'")
    have ss: "s' = s" using submit_image_fst [of key e blob "js ''input.png''" w1 w1'] s s' by simp
    show ?thesis using a a' aa Inr s s' ss
      by (cases s) (simp_all add: process_job_def supabase_update_def Let_def split: option.splits)
  qed
qed

lemma process_job_db:
  "db (snd (process_job key e i u w)) =
     (case fst (process_job key e i u w) of
        Inl err \<Rightarrow> db w
      | Inr x \<Rightarrow>
          (case db w i of
             None \<Rightarrow> db w
           | Some r \<Rightarrow> (db w)(i \<mapsto> r ++ map_of
               [(js ''status'', JStr (js ''complete'')), (js ''result_image_url'', serialise x),
                (js ''processed_at'', JStr (toISOString e ToComplete))])))"
proof -
  obtain a w1 where a: "acquire_image e u w = (a, w1)" by (cases "acquire_image e u w")
  then have w1: "db w1 = db w" using acquire_image_db [of e u w] by simp
  show ?thesis
  proof (cases a)
    case (Inl err)
    with a w1 show ?thesis by (simp add: process_job_def)
  next
    case (Inr blob)
    obtain s w2 where s: "submit_image key e blob (js ''input.png'') w1 = (s, w2)"
      by (cases "submit_image key e blob (js ''input.png'') w1")
    then have w2: "db w2 = db w" using submit_image_db [of key e blob "js ''input.png''" w1] w1 by simp
    show ?thesis
    proof (cases s)
      case (Inl err)
      with a Inr s w2 show ?thesis by (simp add: process_job_def)
    next
      case (Inr x)
      with a \<open>a = Inr blob\<close> s w2 show ?thesis
        by (simp add: process_job_def supabase_update_def Let_def split: option.splits)
    qed
  qed
qed

lemma process_job_truthy: "fst (process_job key e i u w) = Inr x \<Longrightarrow> truthy (Some x)"
  by (auto simp: process_job_outcome split: sum.splits option.splits dest: submit_image_truthy)

lemma process_job_kept:
  assumes "\<forall>request resp result. http_post e request = Inr resp \<and> api_json resp = Inr result \<longrightarrow>
             member (index0 (member (Some result) (js ''data''))) (js ''url'')
               \<notin> {Some (JNum PlusInfinity), Some (JNum MinusInfinity)}"
    and "fst (process_job key e i u w) = Inr x"
  shows "serialise x \<noteq> JNull"
  using assms(2) submit_image_kept [OF assms(1)]
  by (auto simp: process_job_outcome split: sum.splits option.splits)

text \<open>The errors that the specification lists, each as an outcome of the pipeline: a malformed
  inline payload, an image download that is not a success, an answer of the image API that
  is not a success, an answer without a result URL, and a failing update of the result.\<close>

lemma listed_errors_reach_catch:
  "isBase64DataUrl s \<Longrightarrow> match_data_url s = None \<Longrightarrow>
     fst (process_job key e i (JStr s) w) = Inl InvalidDataUrl"
  "\<not> isBase64DataUrl s \<Longrightarrow> http_get e (JStr s) = Inr ir \<Longrightarrow> \<not> img_ok ir \<Longrightarrow>
     fst (process_job key e i (JStr s) w) = Inl (DownloadFailed (img_statusText ir))"
  "fst (acquire_image e u w) = Inr imageBlob \<Longrightarrow>
     http_post e (variations_request key imageBlob (js ''input.png'')) = Inr resp \<Longrightarrow>
     \<not> api_ok resp \<Longrightarrow> api_text resp = Inr errorText \<Longrightarrow>
     fst (process_job key e i u w) = Inl (OpenAIError (api_status resp) errorText)"
  "fst (acquire_image e u w) = Inr imageBlob \<Longrightarrow>
     http_post e (variations_request key imageBlob (js ''input.png'')) = Inr resp \<Longrightarrow>
     api_ok resp \<Longrightarrow> api_json resp = Inr result \<Longrightarrow>
     \<not> truthy (member (index0 (member (Some result) (js ''data''))) (js ''url'')) \<Longrightarrow>
     fst (process_job key e i u w) = Inl NoResultUrl"
  "fst (acquire_image e u w) = Inr imageBlob \<Longrightarrow>
     fst (submit_image key e imageBlob (js ''input.png'') w) = Inr x \<Longrightarrow>
     update_failure e ToComplete = Some m \<Longrightarrow>
     fst (process_job key e i u w) = Inl (UpdateFailed m)"
  by (simp_all add: process_job_outcome acquire_image_invalid_data_url acquire_image_download_failed
        submit_image_api_error submit_image_no_url)

lemma process_job_data_url_no_get:
  assumes "isBase64DataUrl s"
    and "HttpGet x \<in> set (calls (snd (process_job key e i (JStr s) w)))"
  shows "HttpGet x \<in> set (calls w)"
proof (cases "base64DataUrlToBlob (atob_message e) s")
  case (Inl err)
  with assms show ?thesis by (simp add: process_job_def acquire_image_data_url)
next
  case (Inr imageBlob)
  obtain o2 w2 where s2: "submit_image key e imageBlob (js ''input.png'') w = (o2, w2)"
    by (cases "submit_image key e imageBlob (js ''input.png'') w")
  then have c2: "calls w2 = calls w @ [ApiPost (variations_request key imageBlob (js ''input.png''))]"
    using submit_image_calls [of key e imageBlob "js ''input.png''" w] by simp
  show ?thesis
  proof (cases o2)
    case (Inl err)
    with assms Inr s2 c2 show ?thesis by (simp add: process_job_def acquire_image_data_url)
  next
    case (Inr y)
    with assms \<open>base64DataUrlToBlob (atob_message e) s = Inr imageBlob\<close> s2 c2 show ?thesis
      by (auto simp: process_job_def acquire_image_data_url supabase_update_def Let_def
               split: option.splits)
  qed
qed

lemma process_job_2_outcome:
  "fst (process_job_2 key e i u w) =
     (case fst (acquire_image_2 e u w) of
        Inl err \<Rightarrow> Inl err
      | Inr imageBlob \<Rightarrow>
          (case fst (submit_image key e imageBlob (js ''image.png'') w) of
             Inl err \<Rightarrow> Inl err
           | Inr x \<Rightarrow> (case update_failure e ToComplete of
                         Some m \<Rightarrow> Inl (UpdateFailed m)
                       | None \<Rightarrow> Inr x)))"
proof -
  obtain a w1 where a: "acquire_image_2 e u w = (a, w1)" by (cases "acquire_image_2 e u w")
  show ?thesis
  proof (cases a)
    case (Inl err)
    with a show ?thesis by (simp add: process_job_2_def)
  next
    case (Inr blob)
    obtain s w2 where s: "submit_image key e blob (js ''image.png'') w1 = (s, w2)"
      by (cases "submit_image key e blob (js ''image.png'') w1")
    then have s': "fst (submit_image key e blob (js ''image.png'') w) = s"
      using submit_image_fst [of key e blob "js ''image.png''" w w1] by simp
    show ?thesis
    proof (cases s)
      case (Inl err)
      with a Inr s s' show ?thesis by (simp add: process_job_2_def)
    next
      case (Inr x)
      obtain r w3 where up: "supabase_update e ToComplete i
           [(js ''status'', JStr (js ''complete'')), (js ''result_image_url'', x)] w2 = (r, w3)"
        by (cases "supabase_update e ToComplete i
           [(js ''status'', JStr (js ''complete'')), (js ''result_image_url'', x)] w2")
      then have "r = update_failure e ToComplete"
        using supabase_update_fst by (metis fst_conv)
      with a \<open>a = Inr blob\<close> s s' Inr up show ?thesis
        by (simp add: process_job_2_def split: option.splits)
    qed
  qed
qed

lemma process_job_2_fst: "fst (process_job_2 key e i u w) = fst (process_job_2 key e i u w')"
  unfolding process_job_2_outcome
  using acquire_image_2_fst [of e u w w'] submit_image_fst [of key e _ "js ''image.png''" w w']
  by (simp split: sum.splits)

lemma process_job_2_db:
  "db (snd (process_job_2 key e i u w)) =
     (case fst (process_job_2 key e i u w) of
        Inl err \<Rightarrow> db w
      | Inr x \<Rightarrow>
          (case db w i of
             None \<Rightarrow> db w
           | Some r \<Rightarrow> (db w)(i \<mapsto> r ++ map_of
               [(js ''status'', JStr (js ''complete'')), (js ''result_image_url'', serialise x)])))"
proof -
  obtain a w1 where a: "acquire_image_2 e u w = (a, w1)" by (cases "acquire_image_2 e u w")
  then have w1: "db w1 = db w" using acquire_image_2_db [of e u w] by simp
  show ?thesis
  proof (cases a)
    case (Inl err)
    with a w1 show ?thesis by (simp add: process_job_2_def)
  next
    case (Inr blob)
    obtain s w2 where s: "submit_image key e blob (js ''image.png'') w1 = (s, w2)"
      by (cases "submit_image key e blob (js ''image.png'') w1")
    then have w2: "db w2 = db w" using submit_image_db [of key e blob "js ''image.png''" w1] w1 by simp
    show ?thesis
    proof (cases s)
      case (Inl err)
      with a Inr s w2 show ?thesis by (simp add: process_job_2_def)
    next
      case (Inr x)
      with a \<open>a = Inr blob\<close> s w2 show ?thesis
        by (simp add: process_job_2_def supabase_update_def Let_def split: option.splits)
    qed
  qed
qed

lemma process_job_2_truthy: "fst (process_job_2 key e i u w) = Inr x \<Longrightarrow> truthy (Some x)"
  by (auto simp: process_job_2_outcome split: sum.splits option.splits dest: submit_image_truthy)

lemma process_job_2_kept:
  assumes "\<forall>request resp result. http_post e request = Inr resp \<and> api_json resp = Inr result \<longrightarrow>
             member (index0 (member (Some result) (js ''data''))) (js ''url'')
               \<notin> {Some (JNum PlusInfinity), Some (JNum MinusInfinity)}"
    and "fst (process_job_2 key e i u w) = Inr x"
  shows "serialise x \<noteq> JNull"
  using assms(2) submit_image_kept [OF assms(1)]
  by (auto simp: process_job_2_outcome split: sum.splits option.splits)

lemma listed_errors_reach_catch_2:
  "http_get e u = Inr ir \<Longrightarrow> \<not> img_ok ir \<Longrightarrow>
     fst (process_job_2 key e i u w) = Inl (DownloadFailed (img_statusText ir))"
  "fst (acquire_image_2 e u w) = Inr imageBlob \<Longrightarrow>
     http_post e (variations_request key imageBlob (js ''image.png'')) = Inr resp \<Longrightarrow>
     \<not> api_ok resp \<Longrightarrow> api_text resp = Inr errorText \<Longrightarrow>
     fst (process_job_2 key e i u w) = Inl (OpenAIError (api_status resp) errorText)"
  "fst (acquire_image_2 e u w) = Inr imageBlob \<Longrightarrow>
     http_post e (variations_request key imageBlob (js ''image.png'')) = Inr resp \<Longrightarrow>
     api_ok resp \<Longrightarrow> api_json resp = Inr result \<Longrightarrow>
     \<not> truthy (member (index0 (member (Some result) (js ''data''))) (js ''url'')) \<Longrightarrow>
     fst (process_job_2 key e i u w) = Inl NoResultUrl"
  "fst (acquire_image_2 e u w) = Inr imageBlob \<Longrightarrow>
     fst (submit_image key e imageBlob (js ''image.png'') w) = Inr x \<Longrightarrow>
     update_failure e ToComplete = Some m \<Longrightarrow>
     fst (process_job_2 key e i u w) = Inl (UpdateFailed m)"
  by (simp_all add: process_job_2_outcome acquire_image_2_download_failed
        submit_image_api_error submit_image_no_url)

subsection \<open>The paths through the handlers\<close>

lemma required_fields_None:
  "\<not> truthy (member (member (Some b) (js ''record'')) (js ''id''))
     \<or> \<not> truthy (member (member (Some b) (js ''record'')) (js ''input_image_url''))
     \<or> \<not> truthy (member (member (Some b) (js ''record'')) (js ''status''))
   \<Longrightarrow> required_fields b = None"
  by (auto simp: required_fields_def Let_def)

lemma required_fields_Some:
  "required_fields b = Some (i, u, s) \<longleftrightarrow>
     member (member (Some b) (js ''record'')) (js ''id'') = Some i \<and> truthy (Some i) \<and>
     member (member (Some b) (js ''record'')) (js ''input_image_url'') = Some u \<and> truthy (Some u) \<and>
     member (member (Some b) (js ''record'')) (js ''status'') = Some s \<and> truthy (Some s)"
  by (auto simp: required_fields_def Let_def split: option.splits)

lemma POST_invalid:
  "required_fields b = None \<Longrightarrow>
     POST key e (Inr b) w =
       (json_response [(js ''error'', JStr (js ''Invalid payload: Missing required fields''))] 400, w)"
  by (simp add: POST_def)

lemma POST_2_invalid:
  "required_fields b = None \<Longrightarrow>
     POST_2 key e (Inr b) w =
       (json_response [(js ''error'', JStr (js ''Invalid payload: Missing required fields''))] 400, w)"
  by (simp add: POST_2_def)

lemma POST_not_pending:
  "required_fields b = Some (i, u, s) \<Longrightarrow> s \<noteq> JStr (js ''pending'') \<Longrightarrow>
     POST key e (Inr b) w =
       (json_response [(js ''message'', JStr (js ''Job is not in pending status; no action taken.''))] 200, w)"
  by (simp add: POST_def)

lemma POST_2_not_pending:
  "required_fields b = Some (i, u, s) \<Longrightarrow> s \<noteq> JStr (js ''pending'') \<Longrightarrow>
     POST_2 key e (Inr b) w =
       (json_response [(js ''message'', JStr (js ''Job is not in pending status; no action taken.''))] 200, w)"
  by (simp add: POST_2_def)

lemma POST_no_action: "\<not> payload_pending req \<Longrightarrow> snd (POST key e req w) = w"
  by (cases req) (auto simp: payload_pending_def POST_def split: option.splits)

lemma POST_2_no_action: "\<not> payload_pending req \<Longrightarrow> snd (POST_2 key e req w) = w"
  by (cases req) (auto simp: payload_pending_def POST_2_def split: option.splits)

lemma POST_not_loaded_db:
  "required_fields b = Some (i, u, s) \<Longrightarrow> select_failure e \<noteq> None \<or> db w i = None \<Longrightarrow>
     db (snd (POST key e (Inr b) w)) = db w"
  by (auto simp: POST_def supabase_select_def Let_def split: option.splits)

lemma POST_2_not_loaded_db:
  "required_fields b = Some (i, u, s) \<Longrightarrow> select_failure e \<noteq> None \<or> db w i = None \<Longrightarrow>
     db (snd (POST_2 key e (Inr b) w)) = db w"
  by (auto simp: POST_2_def supabase_select_def Let_def split: option.splits)

lemma POST_pending:
  assumes "required_fields b = Some (i, u, JStr (js ''pending''))"
    and "select_failure e = None" and "db w i = Some r"
  shows "POST key e (Inr b) w =
     (case process_job key e i u
             (snd (supabase_update e ToProcessing i [(js ''status'', JStr (js ''processing''))]
                    (w\<lparr>calls := calls w @ [Select i]\<rparr>))) of
        (Inr resultImageUrl, w3) \<Rightarrow>
          (json_response [(js ''message'', JStr (js ''Job processed successfully'')),
                          (js ''result_image_url'', resultImageUrl)] 200, w3)
      | (Inl processError, w3) \<Rightarrow>
          (json_response [(js ''error'', JStr (js ''Job processing failed'')),
                          (js ''details'', JStr (error_text processError))] 500,
           snd (supabase_update e ToFailed i
                  [(js ''status'', JStr (js ''failed'')),
                   (js ''error_message'', JStr (error_text processError)),
                   (js ''processed_at'', JStr (toISOString e ToFailed))] w3)))"
  using assms
  by (simp add: POST_def supabase_select_loaded split: prod.splits sum.splits)

lemma POST_2_pending:
  assumes "required_fields b = Some (i, u, JStr (js ''pending''))"
    and "select_failure e = None" and "db w i = Some r"
  shows "POST_2 key e (Inr b) w =
     (case process_job_2 key e i u
             (snd (supabase_update e ToProcessing i [(js ''status'', JStr (js ''processing''))]
                    (w\<lparr>calls := calls w @ [Select i]\<rparr>))) of
        (Inr resultImageUrl, w3) \<Rightarrow>
          (json_response [(js ''message'', JStr (js ''Job processed successfully'')),
                          (js ''result_image_url'', resultImageUrl)] 200, w3)
      | (Inl processError, w3) \<Rightarrow>
          (json_response [(js ''error'', JStr (js ''Job processing failed'')),
                          (js ''details'', JStr (error_text processError))] 500,
           snd (supabase_update e ToFailed i
                  [(js ''status'', JStr (js ''failed'')),
                   (js ''error_message'', JStr (error_text processError))] w3)))"
  using assms
  by (simp add: POST_2_def supabase_select_loaded split: prod.splits sum.splits)

lemma POST_pending_response:
  assumes "required_fields b = Some (i, u, JStr (js ''pending''))"
    and "select_failure e = None" and "db w i = Some r"
  shows "fst (POST key e (Inr b) w) =
     (case fst (process_job key e i u w) of
        Inr x \<Rightarrow> json_response [(js ''message'', JStr (js ''Job processed successfully'')),
                                 (js ''result_image_url'', x)] 200
      | Inl err \<Rightarrow> json_response [(js ''error'', JStr (js ''Job processing failed'')),
                                   (js ''details'', JStr (error_text err))] 500)"
proof -
  let ?w2 = "snd (supabase_update e ToProcessing i [(js ''status'', JStr (js ''processing''))]
                    (w\<lparr>calls := calls w @ [Select i]\<rparr>))"
  obtain o3 w3 where p: "process_job key e i u ?w2 = (o3, w3)" by (cases "process_job key e i u ?w2")
  then have "fst (process_job key e i u w) = o3" using process_job_fst [of key e i u w ?w2] by simp
  then show ?thesis
    unfolding POST_pending [OF assms] p by (cases o3) simp_all
qed

lemma POST_pending_db:
  assumes "required_fields b = Some (i, u, JStr (js ''pending''))"
    and "select_failure e = None" and "db w i = Some r"
  defines "r2 \<equiv> (if update_failure e ToProcessing = None
                     then r ++ map_of [(js ''status'', JStr (js ''processing''))] else r)"
  shows "db (snd (POST key e (Inr b) w)) =
     (db w)(i \<mapsto>
       (case fst (process_job key e i u w) of
          Inr x \<Rightarrow> r2 ++ map_of [(js ''status'', JStr (js ''complete'')), (js ''result_image_url'', serialise x),
                                  (js ''processed_at'', JStr (toISOString e ToComplete))]
        | Inl err \<Rightarrow>
            (if update_failure e ToFailed = None
             then r2 ++ map_of [(js ''status'', JStr (js ''failed'')),
                                (js ''error_message'', JStr (error_text err)),
                                (js ''processed_at'', JStr (toISOString e ToFailed))]
             else r2)))"
proof -
  let ?w2 = "snd (supabase_update e ToProcessing i [(js ''status'', JStr (js ''processing''))]
                    (w\<lparr>calls := calls w @ [Select i]\<rparr>))"
  have w2: "db ?w2 = (db w)(i \<mapsto> r2)" unfolding r2_def by (rule claimed_row) (rule assms(3))
  obtain o3 w3 where p: "process_job key e i u ?w2 = (o3, w3)" by (cases "process_job key e i u ?w2")
  then have o3: "fst (process_job key e i u w) = o3" using process_job_fst [of key e i u w ?w2] by simp
  have w3: "db w3 = (case o3 of Inl err \<Rightarrow> db ?w2
       | Inr x \<Rightarrow> (db ?w2)(i \<mapsto> r2 ++ map_of
               [(js ''status'', JStr (js ''complete'')), (js ''result_image_url'', serialise x),
                (js ''processed_at'', JStr (toISOString e ToComplete))]))"
    using process_job_db [of key e i u ?w2] p by (simp add: w2 split: sum.splits)
  show ?thesis
  proof (cases o3)
    case (Inl err)
    with w3 w2 have "db w3 = (db w)(i \<mapsto> r2)" by simp
    then show ?thesis
      unfolding POST_pending [OF assms(1-3)] p o3 Inl by (simp add: supabase_update_db)
  next
    case (Inr x)
    with w3 w2 have "db w3 = (db w)(i \<mapsto> r2 ++ map_of
               [(js ''status'', JStr (js ''complete'')), (js ''result_image_url'', serialise x),
                (js ''processed_at'', JStr (toISOString e ToComplete))])" by simp
    then show ?thesis
      unfolding POST_pending [OF assms(1-3)] p o3 Inr by simp
  qed
qed

lemma POST_pending_calls_failed:
  assumes "required_fields b = Some (i, u, JStr (js ''pending''))"
    and "select_failure e = None" and "db w i = Some r"
    and "fst (process_job key e i u w) = Inl err"
  shows "\<exists>cs. calls (snd (POST key e (Inr b) w)) =
           cs @ [Update i [(js ''status'', JStr (js ''failed'')),
                           (js ''error_message'', JStr (error_text err)),
                           (js ''processed_at'', JStr (toISOString e ToFailed))]]"
proof -
  let ?w2 = "snd (supabase_update e ToProcessing i [(js ''status'', JStr (js ''processing''))]
                    (w\<lparr>calls := calls w @ [Select i]\<rparr>))"
  obtain o3 w3 where p: "process_job key e i u ?w2 = (o3, w3)" by (cases "process_job key e i u ?w2")
  then have "o3 = Inl err" using process_job_fst [of key e i u w ?w2] assms(4) by simp
  then show ?thesis
    unfolding POST_pending [OF assms(1-3)] p by simp
qed

lemma POST_2_pending_response:
  assumes "required_fields b = Some (i, u, JStr (js ''pending''))"
    and "select_failure e = None" and "db w i = Some r"
  shows "fst (POST_2 key e (Inr b) w) =
     (case fst (process_job_2 key e i u w) of
        Inr x \<Rightarrow> json_response [(js ''message'', JStr (js ''Job processed successfully'')),
                                 (js ''result_image_url'', x)] 200
      | Inl err \<Rightarrow> json_response [(js ''error'', JStr (js ''Job processing failed'')),
                                   (js ''details'', JStr (error_text err))] 500)"
proof -
  let ?w2 = "snd (supabase_update e ToProcessing i [(js ''status'', JStr (js ''processing''))]
                    (w\<lparr>calls := calls w @ [Select i]\<rparr>))"
  obtain o3 w3 where p: "process_job_2 key e i u ?w2 = (o3, w3)" by (cases "process_job_2 key e i u ?w2")
  then have "fst (process_job_2 key e i u w) = o3" using process_job_2_fst [of key e i u w ?w2] by simp
  then show ?thesis
    unfolding POST_2_pending [OF assms] p by (cases o3) simp_all
qed

lemma POST_2_pending_db:
  assumes "required_fields b = Some (i, u, JStr (js ''pending''))"
    and "select_failure e = None" and "db w i = Some r"
  defines "r2 \<equiv> (if update_failure e ToProcessing = None
                     then r ++ map_of [(js ''status'', JStr (js ''processing''))] else r)"
  shows "db (snd (POST_2 key e (Inr b) w)) =
     (db w)(i \<mapsto>
       (case fst (process_job_2 key e i u w) of
          Inr x \<Rightarrow> r2 ++ map_of [(js ''status'', JStr (js ''complete'')), (js ''result_image_url'', serialise x)]
        | Inl err \<Rightarrow>
            (if update_failure e ToFailed = None
             then r2 ++ map_of [(js ''status'', JStr (js ''failed'')),
                                (js ''error_message'', JStr (error_text err))]
             else r2)))"
proof -
  let ?w2 = "snd (supabase_update e ToProcessing i [(js ''status'', JStr (js ''processing''))]
                    (w\<lparr>calls := calls w @ [Select i]\<rparr>))"
  have w2: "db ?w2 = (db w)(i \<mapsto> r2)" unfolding r2_def by (rule claimed_row) (rule assms(3))
  obtain o3 w3 where p: "process_job_2 key e i u ?w2 = (o3, w3)" by (cases "process_job_2 key e i u ?w2")
  then have o3: "fst (process_job_2 key e i u w) = o3" using process_job_2_fst [of key e i u w ?w2] by simp
  have w3: "db w3 = (case o3 of Inl err \<Rightarrow> db ?w2
       | Inr x \<Rightarrow> (db ?w2)(i \<mapsto> r2 ++ map_of
               [(js ''status'', JStr (js ''complete'')), (js ''result_image_url'', serialise x)]))"
    using process_job_2_db [of key e i u ?w2] p by (simp add: w2 split: sum.splits)
  show ?thesis
  proof (cases o3)
    case (Inl err)
    with w3 w2 have "db w3 = (db w)(i \<mapsto> r2)" by simp
    then show ?thesis
      unfolding POST_2_pending [OF assms(1-3)] p o3 Inl by (simp add: supabase_update_db)
  next
    case (Inr x)
    with w3 w2 have "db w3 = (db w)(i \<mapsto> r2 ++ map_of
               [(js ''status'', JStr (js ''complete'')), (js ''result_image_url'', serialise x)])" by simp
    then show ?thesis
      unfolding POST_2_pending [OF assms(1-3)] p o3 Inr by simp
  qed
qed

lemma POST_2_pending_calls_failed:
  assumes "required_fields b = Some (i, u, JStr (js ''pending''))"
    and "select_failure e = None" and "db w i = Some r"
    and "fst (process_job_2 key e i u w) = Inl err"
  shows "\<exists>cs. calls (snd (POST_2 key e (Inr b) w)) =
           cs @ [Update i [(js ''status'', JStr (js ''failed'')),
                           (js ''error_message'', JStr (error_text err))]]"
proof -
  let ?w2 = "snd (supabase_update e ToProcessing i [(js ''status'', JStr (js ''processing''))]
                    (w\<lparr>calls := calls w @ [Select i]\<rparr>))"
  obtain o3 w3 where p: "process_job_2 key e i u ?w2 = (o3, w3)" by (cases "process_job_2 key e i u ?w2")
  then have "o3 = Inl err" using process_job_2_fst [of key e i u w ?w2] assms(4) by simp
  then show ?thesis
    unfolding POST_2_pending [OF assms(1-3)] p by simp
qed

lemma POST_data_url_no_get:
  assumes "required_fields b = Some (i, JStr s, st)" and "isBase64DataUrl s"
    and "HttpGet x \<in> set (calls (snd (POST key e (Inr b) w)))"
  shows "HttpGet x \<in> set (calls w)"
proof (cases "st = JStr (js ''pending'')")
  case False
  with assms show ?thesis by (simp add: POST_not_pending)
next
  case True
  show ?thesis
  proof (cases "select_failure e = None \<and> db w i \<noteq> None")
    case False
    with assms True show ?thesis
      by (auto simp: POST_def supabase_select_def Let_def split: option.splits)
  next
    case True
    then obtain r where sel: "select_failure e = None" and r: "db w i = Some r" by auto
    let ?w2 = "snd (supabase_update e ToProcessing i [(js ''status'', JStr (js ''processing''))]
                    (w\<lparr>calls := calls w @ [Select i]\<rparr>))"
    have w2: "HttpGet x \<in> set (calls ?w2) \<Longrightarrow> HttpGet x \<in> set (calls w)" by simp
    obtain o3 w3 where p: "process_job key e i (JStr s) ?w2 = (o3, w3)"
      by (cases "process_job key e i (JStr s) ?w2")
    then have w3: "HttpGet x \<in> set (calls w3) \<Longrightarrow> HttpGet x \<in> set (calls w)"
      using process_job_data_url_no_get [OF assms(2), of x key e i ?w2] w2 by simp
    from assms(1) \<open>st = JStr (js ''pending'')\<close>
    have rf: "required_fields b = Some (i, JStr s, JStr (js ''pending''))" by simp
    show ?thesis
      using assms(3) w3 unfolding POST_pending [OF rf sel r] p by (cases o3) auto
  qed
qed

lemma patched_status [simp]:
  "(r ++ map_of ((js ''status'', v) # p)) (js ''status'') = Some v"
  by (simp add: map_add_def)

lemma fresh_row_outcomes:
  fixes c :: bool
  assumes "r (js ''status'') = Some (JStr (js ''pending''))"
    and "\<not> populated r (js ''result_image_url'')" and "\<not> populated r (js ''error_message'')"
  defines "r2 \<equiv> (if c then r ++ map_of [(js ''status'', JStr (js ''processing''))] else r)"
  shows "one_outcome r2"
    and "x \<noteq> JNull \<Longrightarrow> one_outcome (r2 ++ map_of ((js ''status'', JStr (js ''complete''))
            # (js ''result_image_url'', x) # (if t then [(js ''processed_at'', p)] else [])))"
    and "one_outcome (r2 ++ map_of ((js ''status'', JStr (js ''failed''))
            # (js ''error_message'', JStr m) # (if t then [(js ''processed_at'', p)] else [])))"
  using assms(1-3) by (auto simp: one_outcome_def populated_def r2_def map_add_def split: option.splits)

subsection \<open>The concrete deliveries\<close>

lemma ex_members:
  "member (member (Some (ex_payload u s)) (js ''record'')) (js ''id'') = Some ex_id"
  "member (member (Some (ex_payload u s)) (js ''record'')) (js ''input_image_url'') = Some u"
  "member (member (Some (ex_payload u s)) (js ''record'')) (js ''status'') = Some s"
  by (simp_all add: ex_payload_def)

lemma ex_required:
  "required_fields (ex_payload ex_remote_url (JStr (js ''pending''))) = Some (ex_id, ex_remote_url, JStr (js ''pending''))"
  by (simp add: required_fields_def ex_payload_def ex_id_def ex_remote_url_def)

lemma ex_required_gen:
  "truthy (Some u) \<Longrightarrow> truthy (Some st) \<Longrightarrow> required_fields (ex_payload u st) = Some (ex_id, u, st)"
  by (simp add: required_fields_Some ex_members ex_id_def)

lemma ex_not_pending:
  "\<not> payload_pending (Inr (ex_payload ex_remote_url (JStr (js ''complete''))))"
  "\<not> payload_pending (Inl (js ''Unexpected end of JSON input''))"
  by (simp_all add: payload_pending_def required_fields_def ex_payload_def ex_id_def ex_remote_url_def)

lemma ex_select: "select_failure (ex_env img api cf) = None"
  by (simp add: ex_env_def)

lemma ex_row_loaded: "db (ex_world s x) ex_id = Some (ex_row s x)"
  by (simp add: ex_world_def)

lemma ex_row_fresh:
  "ex_row (js ''pending'') JNull (js ''status'') = Some (JStr (js ''pending''))"
  "\<not> populated (ex_row (js ''pending'') JNull) (js ''result_image_url'')"
  "\<not> populated (ex_row (js ''pending'') JNull) (js ''error_message'')"
  by (simp_all add: ex_row_def populated_def)

lemma ex_update_failure [simp]:
  "update_failure (ex_env img api cf) ToComplete = cf"
  "update_failure (ex_env img api cf) ToProcessing = None"
  "update_failure (ex_env img api cf) ToFailed = None"
  by (simp_all add: ex_env_def)

lemma ex_clock [simp]: "toISOString (ex_env img api cf) site = js ''2024-05-01T12:00:00.000Z''"
  by (simp add: ex_env_def)

lemma ex_acquire: "fst (acquire_image (ex_env ex_img_ok api cf) ex_remote_url w) = Inr ex_blob"
  by (simp add: acquire_image_def ex_remote_url_def ex_env_def ex_img_ok_def isBase64DataUrl_def
        startsWith_js Let_def)

lemma ex_acquire_2: "fst (acquire_image_2 (ex_env ex_img_ok api cf) u w) = Inr ex_blob"
  by (simp add: acquire_image_2_def ex_env_def ex_img_ok_def Let_def)

lemma ex_submit_ok: "fst (submit_image key (ex_env img ex_api_ok cf) blob f w) = Inr ex_result_url"
  by (simp add: submit_image_def ex_env_def ex_api_ok_def ex_result_url_def Let_def)

lemma ex_submit_down:
  "fst (submit_image key (ex_env img ex_api_down cf) blob f w) = Inl (OpenAIError 503 (js ''overloaded''))"
  by (simp add: submit_image_def ex_env_def ex_api_down_def Let_def)

lemma ex_process_ok:
  "fst (process_job key (ex_env ex_img_ok ex_api_ok None) i ex_remote_url w) = Inr ex_result_url"
  by (simp add: process_job_outcome ex_acquire ex_submit_ok)

lemma ex_process_api_down:
  "fst (process_job key (ex_env ex_img_ok ex_api_down None) i ex_remote_url w) =
     Inl (OpenAIError 503 (js ''overloaded''))"
  by (simp add: process_job_outcome ex_acquire ex_submit_down)

lemma ex_download_failed:
  "fst (process_job key (ex_env ex_img_missing api cf) i ex_remote_url w) =
     Inl (DownloadFailed (js ''Not Found''))"
  by (simp add: process_job_outcome acquire_image_def ex_remote_url_def ex_env_def ex_img_missing_def
        isBase64DataUrl_def startsWith_js Let_def)

lemma ex_download_failed_2:
  "fst (process_job_2 key (ex_env ex_img_missing api cf) i u w) =
     Inl (DownloadFailed (js ''Not Found''))"
  by (simp add: process_job_2_outcome acquire_image_2_def ex_env_def ex_img_missing_def Let_def)

lemma ex_result_url_serialised [simp]: "serialise ex_result_url = ex_result_url"
  by (simp add: ex_result_url_def)

lemma ex_api_finite:
  "\<forall>request resp result. http_post (ex_env img ex_api_ok cf) request = Inr resp
       \<and> api_json resp = Inr result \<longrightarrow>
     member (index0 (member (Some result) (js ''data''))) (js ''url'')
       \<notin> {Some (JNum PlusInfinity), Some (JNum MinusInfinity)}"
  by (auto simp: ex_env_def ex_api_ok_def ex_result_url_def)

lemma ex_mime: "list_all is_mime_char (js ''image/png'')"
  by (simp add: js_def is_mime_char_def)

lemma ex_malformed: "match_data_url (js ''data:text/plain,hello'') = None"
  by (simp add: match_data_url_def startsWith_def js_def is_mime_char_def Let_def)

section \<open>The claims\<close>

subsection \<open>C1: a pending job that completes\<close>

text \<open>
  Claim C1, as amended. A notification passes the validation with the status \<open>pending\<close>, the
  job row loads, the image is acquired, the image API answers with success and a truthy
  \<open>data[0].url\<close> that serialisation leaves as it is (every non-empty string is such a value; a
  number beyond the range of a double is not), and the update that finalizes success is
  accepted. Then the handler of \<open>route.ts\<close> answers 200 with that URL as \<open>result_image_url\<close> and
  leaves the row with the status \<open>complete\<close>, that URL in \<open>result_image_url\<close> and the time in
  \<open>processed_at\<close>. The handler of the second file answers the same and leaves the row with the
  status \<open>complete\<close> and that URL.
\<close>

theorem pending_job_completes:
  assumes "required_fields b = Some (i, u, JStr (js ''pending''))"
    and "select_failure e = None" and "db w i = Some r"
    and "api_ok resp" and "api_json resp = Inr result"
    and "member (index0 (member (Some result) (js ''data''))) (js ''url'') = Some x"
    and "truthy (Some x)" and "serialise x = x"
    and "update_failure e ToComplete = None"
  shows
    "(fst (acquire_image e u w) = Inr imageBlob \<and>
      http_post e (variations_request key imageBlob (js ''input.png'')) = Inr resp \<longrightarrow>
        fst (POST key e (Inr b) w) =
          \<lparr>status_code = 200,
           body = [(js ''message'', JStr (js ''Job processed successfully'')),
                   (js ''result_image_url'', x)]\<rparr>
        \<and> (\<exists>r'. db (snd (POST key e (Inr b) w)) i = Some r'
               \<and> r' (js ''status'') = Some (JStr (js ''complete''))
               \<and> r' (js ''result_image_url'') = Some x
               \<and> r' (js ''processed_at'') = Some (JStr (toISOString e ToComplete))))
   \<and> (fst (acquire_image_2 e u w) = Inr imageBlob \<and>
      http_post e (variations_request key imageBlob (js ''image.png'')) = Inr resp \<longrightarrow>
        fst (POST_2 key e (Inr b) w) =
          \<lparr>status_code = 200,
           body = [(js ''message'', JStr (js ''Job processed successfully'')),
                   (js ''result_image_url'', x)]\<rparr>
        \<and> (\<exists>r'. db (snd (POST_2 key e (Inr b) w)) i = Some r'
               \<and> r' (js ''status'') = Some (JStr (js ''complete''))
               \<and> r' (js ''result_image_url'') = Some x))"
proof (intro conjI impI)
  assume a: "fst (acquire_image e u w) = Inr imageBlob \<and>
      http_post e (variations_request key imageBlob (js ''input.png'')) = Inr resp"
  then have "fst (submit_image key e imageBlob (js ''input.png'') w) = Inr x"
    using assms(4-7) by (intro submit_image_success [where resp = resp and result = result]) simp_all
  with a assms(9) have ok: "fst (process_job key e i u w) = Inr x"
    by (simp add: process_job_outcome)
  show "fst (POST key e (Inr b) w) =
          \<lparr>status_code = 200,
           body = [(js ''message'', JStr (js ''Job processed successfully'')),
                   (js ''result_image_url'', x)]\<rparr>"
    by (simp add: POST_pending_response [OF assms(1-3)] ok json_response_def assms(8))
  show "\<exists>r'. db (snd (POST key e (Inr b) w)) i = Some r'
               \<and> r' (js ''status'') = Some (JStr (js ''complete''))
               \<and> r' (js ''result_image_url'') = Some x
               \<and> r' (js ''processed_at'') = Some (JStr (toISOString e ToComplete))"
    by (simp add: POST_pending_db [OF assms(1-3)] ok map_add_def assms(8))
next
  assume a: "fst (acquire_image_2 e u w) = Inr imageBlob \<and>
      http_post e (variations_request key imageBlob (js ''image.png'')) = Inr resp"
  then have "fst (submit_image key e imageBlob (js ''image.png'') w) = Inr x"
    using assms(4-7) by (intro submit_image_success [where resp = resp and result = result]) simp_all
  with a assms(9) have ok: "fst (process_job_2 key e i u w) = Inr x"
    by (simp add: process_job_2_outcome)
  show "fst (POST_2 key e (Inr b) w) =
          \<lparr>status_code = 200,
           body = [(js ''message'', JStr (js ''Job processed successfully'')),
                   (js ''result_image_url'', x)]\<rparr>"
    by (simp add: POST_2_pending_response [OF assms(1-3)] ok json_response_def assms(8))
  show "\<exists>r'. db (snd (POST_2 key e (Inr b) w)) i = Some r'
               \<and> r' (js ''status'') = Some (JStr (js ''complete''))
               \<and> r' (js ''result_image_url'') = Some x"
    by (simp add: POST_2_pending_db [OF assms(1-3)] ok map_add_def assms(8))
qed

theorem pending_job_completes_witness:
  "fst (POST ex_key (ex_env ex_img_ok ex_api_ok None) (Inr (ex_payload ex_remote_url (JStr (js ''pending''))))
          (ex_world (js ''pending'') JNull)) =
     \<lparr>status_code = 200,
      body = [(js ''message'', JStr (js ''Job processed successfully'')),
              (js ''result_image_url'', ex_result_url)]\<rparr>
   \<and> (\<exists>r'. db (snd (POST ex_key (ex_env ex_img_ok ex_api_ok None)
                       (Inr (ex_payload ex_remote_url (JStr (js ''pending''))))
                       (ex_world (js ''pending'') JNull))) ex_id = Some r'
          \<and> r' (js ''status'') = Some (JStr (js ''complete''))
          \<and> r' (js ''result_image_url'') = Some ex_result_url
          \<and> r' (js ''processed_at'') = Some (JStr (js ''2024-05-01T12:00:00.000Z'')))"
proof -
  have post: "http_post (ex_env ex_img_ok ex_api_ok None) (variations_request ex_key ex_blob (js ''input.png''))
                = Inr ex_api_ok"
    by (simp add: ex_env_def)
  have api: "api_ok ex_api_ok"
    "api_json ex_api_ok = Inr (JObj [(js ''data'', JArr [JObj [(js ''url'', ex_result_url)]])])"
    "member (index0 (member (Some (JObj [(js ''data'', JArr [JObj [(js ''url'', ex_result_url)]])]))
        (js ''data''))) (js ''url'') = Some ex_result_url"
    "truthy (Some ex_result_url)"
    by (simp_all add: ex_api_ok_def ex_result_url_def)
  show ?thesis
    using pending_job_completes [where imageBlob = ex_blob and key = ex_key,
        OF ex_required ex_select ex_row_loaded api ex_result_url_serialised ex_update_failure(1)]
      ex_acquire post
    by simp
qed

text \<open>
  Claim C1 as stated fails on the handler of the second file: under the same conditions the
  row is complete and \<open>processed_at\<close> is still \<open>null\<close>.
\<close>

theorem second_handler_leaves_processed_at_counterexample:
  "fst (POST_2 ex_key (ex_env ex_img_ok ex_api_ok None) (Inr (ex_payload ex_remote_url (JStr (js ''pending''))))
          (ex_world (js ''pending'') JNull)) =
     json_response [(js ''message'', JStr (js ''Job processed successfully'')),
                    (js ''result_image_url'', ex_result_url)] 200
   \<and> (\<exists>r'. db (snd (POST_2 ex_key (ex_env ex_img_ok ex_api_ok None)
                       (Inr (ex_payload ex_remote_url (JStr (js ''pending''))))
                       (ex_world (js ''pending'') JNull))) ex_id = Some r'
          \<and> r' (js ''status'') = Some (JStr (js ''complete''))
          \<and> r' (js ''result_image_url'') = Some ex_result_url
          \<and> r' (js ''processed_at'') = Some JNull)"
proof -
  have ok: "fst (process_job_2 ex_key (ex_env ex_img_ok ex_api_ok None) ex_id ex_remote_url
                  (ex_world (js ''pending'') JNull)) = Inr ex_result_url"
    by (simp add: process_job_2_outcome ex_acquire_2 ex_submit_ok)
  show ?thesis
    by (simp add: POST_2_pending_response [OF ex_required ex_select ex_row_loaded]
          POST_2_pending_db [OF ex_required ex_select ex_row_loaded] ok map_add_def ex_row_def)
qed

subsection \<open>C2: an error in the pipeline\<close>

text \<open>
  Claim C2, as amended. Whatever error the processing pipeline of a loaded pending job
  raises (an \<open>Inl\<close> outcome of \<open>process_job\<close>; the kinds that the specification lists are
  the cases of \<open>listed_errors_reach_catch\<close>), the handler of \<open>route.ts\<close> answers 500 with the text of the error as \<open>details\<close>, and
  its last call of the store is the update to the status \<open>failed\<close> with that text as
  \<open>error_message\<close> and the time as \<open>processed_at\<close>; when the store accepts the update, the
  row holds these three values. The handler of the second file answers the same, and its last
  call of the store is an update to the status \<open>failed\<close> with that text as \<open>error_message\<close>.
\<close>

theorem pipeline_error_marks_failed:
  assumes "required_fields b = Some (i, u, JStr (js ''pending''))"
    and "select_failure e = None" and "db w i = Some r"
  shows
    "(fst (process_job key e i u w) = Inl err \<longrightarrow>
        fst (POST key e (Inr b) w) =
          json_response [(js ''error'', JStr (js ''Job processing failed'')),
                         (js ''details'', JStr (error_text err))] 500
        \<and> (\<exists>cs. calls (snd (POST key e (Inr b) w)) =
                  cs @ [Update i [(js ''status'', JStr (js ''failed'')),
                                  (js ''error_message'', JStr (error_text err)),
                                  (js ''processed_at'', JStr (toISOString e ToFailed))]])
        \<and> (update_failure e ToFailed = None \<longrightarrow>
             (\<exists>r'. db (snd (POST key e (Inr b) w)) i = Some r'
                \<and> r' (js ''status'') = Some (JStr (js ''failed''))
                \<and> r' (js ''error_message'') = Some (JStr (error_text err))
                \<and> r' (js ''processed_at'') = Some (JStr (toISOString e ToFailed)))))
   \<and> (fst (process_job_2 key e i u w) = Inl err \<longrightarrow>
        fst (POST_2 key e (Inr b) w) =
          json_response [(js ''error'', JStr (js ''Job processing failed'')),
                         (js ''details'', JStr (error_text err))] 500
        \<and> (\<exists>cs p. calls (snd (POST_2 key e (Inr b) w)) = cs @ [Update i p]
               \<and> map_of p (js ''status'') = Some (JStr (js ''failed''))
               \<and> map_of p (js ''error_message'') = Some (JStr (error_text err)))
        \<and> (update_failure e ToFailed = None \<longrightarrow>
             (\<exists>r'. db (snd (POST_2 key e (Inr b) w)) i = Some r'
                \<and> r' (js ''status'') = Some (JStr (js ''failed''))
                \<and> r' (js ''error_message'') = Some (JStr (error_text err)))))"
proof (intro conjI impI)
  assume err: "fst (process_job key e i u w) = Inl err"
  show "fst (POST key e (Inr b) w) =
          json_response [(js ''error'', JStr (js ''Job processing failed'')),
                         (js ''details'', JStr (error_text err))] 500"
    by (simp add: POST_pending_response [OF assms] err)
  show "\<exists>cs. calls (snd (POST key e (Inr b) w)) =
                  cs @ [Update i [(js ''status'', JStr (js ''failed'')),
                                  (js ''error_message'', JStr (error_text err)),
                                  (js ''processed_at'', JStr (toISOString e ToFailed))]]"
    by (rule POST_pending_calls_failed [OF assms err])
  assume "update_failure e ToFailed = None"
  then show "\<exists>r'. db (snd (POST key e (Inr b) w)) i = Some r'
                \<and> r' (js ''status'') = Some (JStr (js ''failed''))
                \<and> r' (js ''error_message'') = Some (JStr (error_text err))
                \<and> r' (js ''processed_at'') = Some (JStr (toISOString e ToFailed))"
    by (simp add: POST_pending_db [OF assms] err map_add_def)
next
  assume err: "fst (process_job_2 key e i u w) = Inl err"
  show "fst (POST_2 key e (Inr b) w) =
          json_response [(js ''error'', JStr (js ''Job processing failed'')),
                         (js ''details'', JStr (error_text err))] 500"
    by (simp add: POST_2_pending_response [OF assms] err)
  show "\<exists>cs p. calls (snd (POST_2 key e (Inr b) w)) = cs @ [Update i p]
               \<and> map_of p (js ''status'') = Some (JStr (js ''failed''))
               \<and> map_of p (js ''error_message'') = Some (JStr (error_text err))"
    using POST_2_pending_calls_failed [OF assms err] by auto
  assume "update_failure e ToFailed = None"
  then show "\<exists>r'. db (snd (POST_2 key e (Inr b) w)) i = Some r'
                \<and> r' (js ''status'') = Some (JStr (js ''failed''))
                \<and> r' (js ''error_message'') = Some (JStr (error_text err))"
    by (simp add: POST_2_pending_db [OF assms] err map_add_def)
qed

theorem pipeline_error_marks_failed_witness:
  "fst (POST ex_key (ex_env ex_img_missing ex_api_ok None)
          (Inr (ex_payload ex_remote_url (JStr (js ''pending'')))) (ex_world (js ''pending'') JNull)) =
     json_response [(js ''error'', JStr (js ''Job processing failed'')),
                    (js ''details'', JStr (js ''Failed to download input image: Not Found''))] 500
   \<and> (\<exists>r'. db (snd (POST ex_key (ex_env ex_img_missing ex_api_ok None)
                       (Inr (ex_payload ex_remote_url (JStr (js ''pending''))))
                       (ex_world (js ''pending'') JNull))) ex_id = Some r'
          \<and> r' (js ''status'') = Some (JStr (js ''failed''))
          \<and> r' (js ''error_message'') = Some (JStr (js ''Failed to download input image: Not Found''))
          \<and> r' (js ''processed_at'') = Some (JStr (js ''2024-05-01T12:00:00.000Z'')))"
  using pipeline_error_marks_failed [where key = ex_key and err = "DownloadFailed (js ''Not Found'')",
      OF ex_required ex_select ex_row_loaded] ex_download_failed
  by (simp add: js_append)

text \<open>
  Claim C2 as stated fails on the handler of the second file: after an image download that
  answers \<open>Not Found\<close> the row is failed and \<open>processed_at\<close> is still \<open>null\<close>.
\<close>

theorem second_handler_failed_without_processed_at_counterexample:
  "fst (POST_2 ex_key (ex_env ex_img_missing ex_api_ok None)
          (Inr (ex_payload ex_remote_url (JStr (js ''pending'')))) (ex_world (js ''pending'') JNull)) =
     json_response [(js ''error'', JStr (js ''Job processing failed'')),
                    (js ''details'', JStr (js ''Failed to download input image: Not Found''))] 500
   \<and> (\<exists>r'. db (snd (POST_2 ex_key (ex_env ex_img_missing ex_api_ok None)
                       (Inr (ex_payload ex_remote_url (JStr (js ''pending''))))
                       (ex_world (js ''pending'') JNull))) ex_id = Some r'
          \<and> r' (js ''status'') = Some (JStr (js ''failed''))
          \<and> r' (js ''error_message'') = Some (JStr (js ''Failed to download input image: Not Found''))
          \<and> r' (js ''processed_at'') = Some JNull)"
  by (simp add: POST_2_pending_response [OF ex_required ex_select ex_row_loaded]
        POST_2_pending_db [OF ex_required ex_select ex_row_loaded] ex_download_failed_2
        map_add_def ex_row_def js_append)

subsection \<open>C3: terminal states and the guard\<close>

text \<open>
  Claim C3, as amended. The guard reads the status of the payload, not the stored one. No
  sequence of deliveries whose payloads do not carry the status \<open>pending\<close> changes anything,
  whatever the stored status of any row: a row is changed only by a delivery whose payload
  says \<open>pending\<close>.
\<close>

theorem non_pending_deliveries_change_nothing:
  assumes "\<forall>d\<in>set ds. \<not> payload_pending (snd d)"
  shows "deliver (POST key) ds w = w \<and> deliver (POST_2 key) ds w = w"
  using assms
proof (induction ds arbitrary: w)
  case Nil
  show ?case by simp
next
  case (Cons d ds)
  obtain e req where d: "d = (e, req)" by (cases d)
  with Cons.prems have "\<not> payload_pending req" by simp
  then have "snd (POST key e req w) = w" "snd (POST_2 key e req w) = w"
    by (simp_all add: POST_no_action POST_2_no_action)
  with Cons d show ?case by simp
qed

theorem non_pending_deliveries_change_nothing_witness:
  "deliver (POST ex_key)
     [(ex_env ex_img_ok ex_api_ok None, Inr (ex_payload ex_remote_url (JStr (js ''complete'')))),
      (ex_env ex_img_ok ex_api_down None, Inl (js ''Unexpected end of JSON input''))]
     (ex_world (js ''complete'') ex_result_url) = ex_world (js ''complete'') ex_result_url"
  using non_pending_deliveries_change_nothing [of
      "[(ex_env ex_img_ok ex_api_ok None, Inr (ex_payload ex_remote_url (JStr (js ''complete'')))),
        (ex_env ex_img_ok ex_api_down None, Inl (js ''Unexpected end of JSON input''))]"
      ex_key "ex_world (js ''complete'') ex_result_url"]
    ex_not_pending
  by simp

text \<open>
  Claim C3 as stated fails: a row whose stored status is \<open>complete\<close> is processed again by a
  delivery whose payload says \<open>pending\<close>, and here ends as \<open>failed\<close>.
\<close>

theorem complete_row_processed_again_counterexample:
  "(\<exists>r. db (ex_world (js ''complete'') ex_result_url) ex_id = Some r
        \<and> r (js ''status'') = Some (JStr (js ''complete'')))
   \<and> (\<exists>r'. db (snd (POST ex_key (ex_env ex_img_ok ex_api_down None)
                   (Inr (ex_payload ex_remote_url (JStr (js ''pending''))))
                   (ex_world (js ''complete'') ex_result_url))) ex_id = Some r'
        \<and> r' (js ''status'') = Some (JStr (js ''failed'')))"
  by (simp add: POST_pending_db [OF ex_required ex_select ex_row_loaded] ex_process_api_down
        ex_row_loaded ex_row_def)

subsection \<open>C4: a status other than pending\<close>

text \<open>
  Claim C4, as amended. When the three required fields of the payload are truthy and the
  status is not \<open>pending\<close>, both handlers answer 200 with the informational message and
  leave the world as it was: no update, no image download, no call of the image API.
  Delivering the same notification a second time changes nothing either.
\<close>

theorem non_pending_no_action:
  assumes "truthy (member (member (Some b) (js ''record'')) (js ''id''))"
    and "truthy (member (member (Some b) (js ''record'')) (js ''input_image_url''))"
    and "truthy (member (member (Some b) (js ''record'')) (js ''status''))"
    and "member (member (Some b) (js ''record'')) (js ''status'') \<noteq> Some (JStr (js ''pending''))"
  shows "POST key e (Inr b) w =
           (json_response [(js ''message'', JStr (js ''Job is not in pending status; no action taken.''))] 200, w)
       \<and> POST_2 key e (Inr b) w =
           (json_response [(js ''message'', JStr (js ''Job is not in pending status; no action taken.''))] 200, w)
       \<and> deliver (POST key) [(e, Inr b), (e', Inr b)] w = w
       \<and> deliver (POST_2 key) [(e, Inr b), (e', Inr b)] w = w"
proof -
  from assms(1-3) obtain i u s where
    m: "member (member (Some b) (js ''record'')) (js ''id'') = Some i"
       "member (member (Some b) (js ''record'')) (js ''input_image_url'') = Some u"
       "member (member (Some b) (js ''record'')) (js ''status'') = Some s"
    by (metis truthy.simps(1) option.exhaust)
  with assms have rf: "required_fields b = Some (i, u, s)" and s: "s \<noteq> JStr (js ''pending'')"
    by (simp_all add: required_fields_Some)
  show ?thesis
    by (simp add: POST_not_pending [OF rf s] POST_2_not_pending [OF rf s])
qed

theorem non_pending_no_action_witness:
  "POST ex_key (ex_env ex_img_ok ex_api_ok None)
     (Inr (ex_payload ex_remote_url (JStr (js ''complete'')))) (ex_world (js ''complete'') ex_result_url) =
     (json_response [(js ''message'', JStr (js ''Job is not in pending status; no action taken.''))] 200,
      ex_world (js ''complete'') ex_result_url)"
  using non_pending_no_action [of "ex_payload ex_remote_url (JStr (js ''complete''))" ex_key
      "ex_env ex_img_ok ex_api_ok None" "ex_world (js ''complete'') ex_result_url"]
  by (simp add: ex_members ex_id_def ex_remote_url_def)

text \<open>
  Claim C4 as stated fails: a status that is present and is not \<open>pending\<close> can be falsy, and
  then the answer is 400, not 200.
\<close>

theorem empty_status_rejected_counterexample:
  "member (member (Some (ex_payload ex_remote_url (JStr []))) (js ''record'')) (js ''status'') = Some (JStr [])
   \<and> JStr [] \<noteq> JStr (js ''pending'')
   \<and> status_code (fst (POST ex_key (ex_env ex_img_ok ex_api_ok None)
         (Inr (ex_payload ex_remote_url (JStr []))) (ex_world (js ''pending'') JNull))) = 400"
  by (simp add: ex_members POST_invalid required_fields_None json_response_def)

subsection \<open>C5: a missing field\<close>

text \<open>
  Claim C5. When \<open>id\<close>, \<open>input_image_url\<close> or \<open>status\<close> is missing from the nested record of
  the payload, both handlers answer 400 and leave the world as it was: no call of the store
  or of the network is issued, and no row changes.
\<close>

theorem missing_field_rejected:
  assumes "member (member (Some b) (js ''record'')) (js ''id'') = None
         \<or> member (member (Some b) (js ''record'')) (js ''input_image_url'') = None
         \<or> member (member (Some b) (js ''record'')) (js ''status'') = None"
  shows "status_code (fst (POST key e (Inr b) w)) = 400 \<and> snd (POST key e (Inr b) w) = w
       \<and> status_code (fst (POST_2 key e (Inr b) w)) = 400 \<and> snd (POST_2 key e (Inr b) w) = w"
proof -
  from assms have "required_fields b = None"
    by (intro required_fields_None) auto
  then show ?thesis by (simp add: POST_invalid POST_2_invalid json_response_def)
qed

theorem missing_field_rejected_witness:
  "status_code (fst (POST ex_key (ex_env ex_img_ok ex_api_ok None)
      (Inr (JObj [(js ''record'', JObj [(js ''id'', ex_id), (js ''status'', JStr (js ''pending''))])]))
      (ex_world (js ''pending'') JNull))) = 400
   \<and> snd (POST ex_key (ex_env ex_img_ok ex_api_ok None)
      (Inr (JObj [(js ''record'', JObj [(js ''id'', ex_id), (js ''status'', JStr (js ''pending''))])]))
      (ex_world (js ''pending'') JNull)) = ex_world (js ''pending'') JNull"
  using missing_field_rejected [of
      "JObj [(js ''record'', JObj [(js ''id'', ex_id), (js ''status'', JStr (js ''pending''))])]"
      ex_key "ex_env ex_img_ok ex_api_ok None" "ex_world (js ''pending'') JNull"]
  by simp

subsection \<open>C6: a failing update of the result\<close>



subsection \<open>C7: the round trip of an inline payload\<close>

text \<open>
  Claim C7, as amended. For a non-empty sequence of bytes and a non-empty media type made of
  letters, \<open>-\<close>, \<open>+\<close> and \<open>/\<close>, decoding the data URL that encodes them gives back exactly
  these bytes, and the media type in ASCII lower case, in the decoder and in the acquisition
  step of the handler, which issues no call for it. So a media type with no upper-case letter
  comes back exactly.
\<close>

theorem inline_payload_roundtrip:
  assumes "bs \<noteq> []" and "mime \<noteq> []" and "list_all is_mime_char mime"
  shows "base64DataUrlToBlob m (encode_data_url mime bs) =
           Inr \<lparr>blob_bytes = bs, blob_type = map ascii_lower mime\<rparr>
       \<and> acquire_image e (JStr (encode_data_url mime bs)) w =
           (Inr \<lparr>blob_bytes = bs, blob_type = map ascii_lower mime\<rparr>, w)
       \<and> (list_all (\<lambda>c. \<not> is_ascii_upper c) mime \<longrightarrow>
            base64DataUrlToBlob m (encode_data_url mime bs) = Inr \<lparr>blob_bytes = bs, blob_type = mime\<rparr>
          \<and> acquire_image e (JStr (encode_data_url mime bs)) w =
              (Inr \<lparr>blob_bytes = bs, blob_type = mime\<rparr>, w))"
  using assms
  by (simp add: decode_encode_roundtrip acquire_image_data_url isBase64DataUrl_encode ascii_lower_id)

theorem inline_payload_roundtrip_witness:
  "encode_data_url (js ''image/png'') [72, 105] = js ''data:image/png;base64,SGk=''
   \<and> base64DataUrlToBlob (js ''InvalidCharacterError'') (js ''data:image/png;base64,SGk='') =
       Inr \<lparr>blob_bytes = [72, 105], blob_type = js ''image/png''\<rparr>"
proof -
  have enc: "encode_data_url (js ''image/png'') [72, 105] = js ''data:image/png;base64,SGk=''"
    by (simp add: encode_data_url_def base64_encode_def b64_char_def js_def Let_def)
  have low: "list_all (\<lambda>c. \<not> is_ascii_upper c) (js ''image/png'')"
    by (simp add: js_def is_ascii_upper_def)
  show ?thesis
    using inline_payload_roundtrip [of "[72, 105]" "js ''image/png''" "js ''InvalidCharacterError''"]
      ex_mime low
    by (simp add: enc ascii_lower_id [OF low])
qed

text \<open>
  Claim C7 as stated fails for an empty sequence of bytes and for a media type with a digit:
  the decoder rejects both data URLs. It fails for a media type with upper-case letters too:
  the decoder answers with the type in lower case.
\<close>

theorem roundtrip_rejected_counterexample:
  "base64DataUrlToBlob (js ''InvalidCharacterError'') (encode_data_url (js ''image/png'') []) =
     Inl InvalidDataUrl
   \<and> base64DataUrlToBlob (js ''InvalidCharacterError'') (encode_data_url (js ''image/jp2'') [72, 105]) =
     Inl InvalidDataUrl
   \<and> base64DataUrlToBlob (js ''InvalidCharacterError'') (encode_data_url (js ''IMAGE/PNG'') [72, 105]) =
     Inr \<lparr>blob_bytes = [72, 105], blob_type = js ''image/png''\<rparr>"
proof -
  have 1: "match_data_url (encode_data_url (js ''image/png'') []) = None"
    by (simp add: match_data_url_def encode_data_url_def base64_encode_def startsWith_def
          js_def is_mime_char_def Let_def)
  have 2: "match_data_url (encode_data_url (js ''image/jp2'') [72, 105]) = None"
    by (simp add: match_data_url_def encode_data_url_def base64_encode_def startsWith_def
          js_def is_mime_char_def Let_def)
  have up: "list_all is_mime_char (js ''IMAGE/PNG'')"
    by (simp add: js_def is_mime_char_def)
  have low: "map ascii_lower (js ''IMAGE/PNG'') = js ''image/png''"
    by (simp add: js_def ascii_lower_def is_ascii_upper_def)
  have 3: "base64DataUrlToBlob (js ''InvalidCharacterError'') (encode_data_url (js ''IMAGE/PNG'') [72, 105]) =
     Inr \<lparr>blob_bytes = [72, 105], blob_type = js ''image/png''\<rparr>"
    using decode_encode_roundtrip [of "[72, 105]" "js ''IMAGE/PNG''" "js ''InvalidCharacterError''"] up
    by (simp add: low)
  have 4: "base64DataUrlToBlob (js ''InvalidCharacterError'') (encode_data_url (js ''image/png'') []) =
     Inl InvalidDataUrl"
    by (simp add: base64DataUrlToBlob_def 1)
  have 5: "base64DataUrlToBlob (js ''InvalidCharacterError'') (encode_data_url (js ''image/jp2'') [72, 105]) =
     Inl InvalidDataUrl"
    by (simp add: base64DataUrlToBlob_def 2)
  show ?thesis by (intro conjI 3 4 5)
qed

subsection \<open>C8: one outcome in a terminal state\<close>

text \<open>
  Claim C8, as amended. Take a row that is \<open>pending\<close> with neither \<open>result_image_url\<close> nor
  \<open>error_message\<close> populated, as a new job is, and an image API that never answers with a
  number beyond the range of a double as \<open>data[0].url\<close> (such a number is truthy and is stored
  as \<open>null\<close>). After one delivery handled by either handler, whatever the notification and the
  other answers of the outside world: if the row is \<open>complete\<close> then \<open>result_image_url\<close> is
  populated and \<open>error_message\<close> is not, and if it is \<open>failed\<close> then \<open>error_message\<close> is
  populated and \<open>result_image_url\<close> is not.
\<close>

theorem fresh_job_has_one_outcome:
  assumes "db w j = Some r"
    and "r (js ''status'') = Some (JStr (js ''pending''))"
    and "\<not> populated r (js ''result_image_url'')" and "\<not> populated r (js ''error_message'')"
    and "\<forall>request resp result. http_post e request = Inr resp \<and> api_json resp = Inr result \<longrightarrow>
             member (index0 (member (Some result) (js ''data''))) (js ''url'')
               \<notin> {Some (JNum PlusInfinity), Some (JNum MinusInfinity)}"
  shows "(\<exists>r'. db (snd (POST key e req w)) j = Some r' \<and> one_outcome r')
       \<and> (\<exists>r'. db (snd (POST_2 key e req w)) j = Some r' \<and> one_outcome r')"
proof -
  have r: "one_outcome r" using fresh_row_outcomes(1) [where c = False, OF assms(2-4)] by simp
  show ?thesis
  proof (cases "payload_pending req")
    case False
    then show ?thesis using assms(1) r by (simp add: POST_no_action POST_2_no_action)
  next
    case True
    then obtain b i u where req: "req = Inr b"
      and rf: "required_fields b = Some (i, u, JStr (js ''pending''))"
      by (auto simp: payload_pending_def split: sum.splits option.splits)
    show ?thesis
    proof (cases "select_failure e = None \<and> db w i \<noteq> None")
      case False
      then have "db (snd (POST key e (Inr b) w)) = db w" "db (snd (POST_2 key e (Inr b) w)) = db w"
        using rf by (auto intro: POST_not_loaded_db POST_2_not_loaded_db)
      then show ?thesis using assms(1) r req by simp
    next
      case True
      then obtain ri where sel: "select_failure e = None" and ri: "db w i = Some ri" by auto
      show ?thesis
      proof (cases "j = i")
        case False
        then show ?thesis using assms(1) r req
          by (simp add: POST_pending_db [OF rf sel ri] POST_2_pending_db [OF rf sel ri])
      next
        case True
        with ri assms(1) have ri': "db w i = Some r" by simp
        note fr = fresh_row_outcomes [where c = "update_failure e ToProcessing = None", OF assms(2-4)]
        have "one_outcome (case fst (process_job key e i u w) of
            Inr x \<Rightarrow> (if update_failure e ToProcessing = None
                       then r ++ map_of [(js ''status'', JStr (js ''processing''))] else r)
                      ++ map_of [(js ''status'', JStr (js ''complete'')), (js ''result_image_url'', serialise x),
                                 (js ''processed_at'', JStr (toISOString e ToComplete))]
          | Inl err \<Rightarrow>
              (if update_failure e ToFailed = None
               then (if update_failure e ToProcessing = None
                     then r ++ map_of [(js ''status'', JStr (js ''processing''))] else r)
                    ++ map_of [(js ''status'', JStr (js ''failed'')),
                               (js ''error_message'', JStr (error_text err)),
                               (js ''processed_at'', JStr (toISOString e ToFailed))]
               else (if update_failure e ToProcessing = None
                     then r ++ map_of [(js ''status'', JStr (js ''processing''))] else r)))"
        proof (cases "fst (process_job key e i u w)")
          case (Inl err)
          then show ?thesis using fr(1) fr(3) [where t = True and m = "error_text err"] by simp
        next
          case (Inr x)
          then have "serialise x \<noteq> JNull" by (rule process_job_kept [OF assms(5)])
          then show ?thesis using Inr fr(2) [where x = "serialise x" and t = True] by simp
        qed
        moreover have "one_outcome (case fst (process_job_2 key e i u w) of
            Inr x \<Rightarrow> (if update_failure e ToProcessing = None
                       then r ++ map_of [(js ''status'', JStr (js ''processing''))] else r)
                      ++ map_of [(js ''status'', JStr (js ''complete'')), (js ''result_image_url'', serialise x)]
          | Inl err \<Rightarrow>
              (if update_failure e ToFailed = None
               then (if update_failure e ToProcessing = None
                     then r ++ map_of [(js ''status'', JStr (js ''processing''))] else r)
                    ++ map_of [(js ''status'', JStr (js ''failed'')),
                               (js ''error_message'', JStr (error_text err))]
               else (if update_failure e ToProcessing = None
                     then r ++ map_of [(js ''status'', JStr (js ''processing''))] else r)))"
        proof (cases "fst (process_job_2 key e i u w)")
          case (Inl err)
          then show ?thesis using fr(1) fr(3) [where t = False and m = "error_text err"] by simp
        next
          case (Inr x)
          then have "serialise x \<noteq> JNull" by (rule process_job_2_kept [OF assms(5)])
          then show ?thesis using Inr fr(2) [where x = "serialise x" and t = False] by simp
        qed
        ultimately show ?thesis
          unfolding req True POST_pending_db [OF rf sel ri'] POST_2_pending_db [OF rf sel ri'] fun_upd_same
          by blast
      qed
    qed
  qed
qed

theorem fresh_job_has_one_outcome_witness:
  "\<exists>r'. db (snd (POST ex_key (ex_env ex_img_ok ex_api_ok None)
                   (Inr (ex_payload ex_remote_url (JStr (js ''pending''))))
                   (ex_world (js ''pending'') JNull))) ex_id = Some r'
        \<and> r' (js ''status'') = Some (JStr (js ''complete''))
        \<and> populated r' (js ''result_image_url'') \<and> \<not> populated r' (js ''error_message'')"
proof -
  have "\<exists>r'. db (snd (POST ex_key (ex_env ex_img_ok ex_api_ok None)
                   (Inr (ex_payload ex_remote_url (JStr (js ''pending''))))
                   (ex_world (js ''pending'') JNull))) ex_id = Some r'
        \<and> r' (js ''status'') = Some (JStr (js ''complete''))"
    by (simp add: POST_pending_db [OF ex_required ex_select ex_row_loaded] ex_process_ok)
  then show ?thesis
    using fresh_job_has_one_outcome [where key = ex_key
        and req = "Inr (ex_payload ex_remote_url (JStr (js ''pending'')))",
        OF ex_row_loaded ex_row_fresh ex_api_finite [of ex_img_ok None]]
    by (auto simp: one_outcome_def)
qed

text \<open>
  Claim C8 as stated fails when a notification is delivered twice: the first delivery
  completes the new job, the second one, with the same payload, fails at the image API, and
  the row is then \<open>failed\<close> with both \<open>result_image_url\<close> and \<open>error_message\<close> populated.
\<close>

theorem redelivery_populates_both_counterexample:
  "\<exists>r'. db (deliver (POST ex_key)
               [(ex_env ex_img_ok ex_api_ok None, Inr (ex_payload ex_remote_url (JStr (js ''pending'')))),
                (ex_env ex_img_ok ex_api_down None, Inr (ex_payload ex_remote_url (JStr (js ''pending''))))]
               (ex_world (js ''pending'') JNull)) ex_id = Some r'
        \<and> r' (js ''status'') = Some (JStr (js ''failed''))
        \<and> populated r' (js ''result_image_url'') \<and> populated r' (js ''error_message'')"
proof -
  define w1 where "w1 = snd (POST ex_key (ex_env ex_img_ok ex_api_ok None)
                   (Inr (ex_payload ex_remote_url (JStr (js ''pending''))))
                   (ex_world (js ''pending'') JNull))"
  define r1 where "r1 = ex_row (js ''pending'') JNull
       ++ map_of [(js ''status'', JStr (js ''processing''))]
       ++ map_of [(js ''status'', JStr (js ''complete'')), (js ''result_image_url'', ex_result_url),
                  (js ''processed_at'', JStr (js ''2024-05-01T12:00:00.000Z''))]"
  have "db w1 ex_id = Some r1"
    unfolding w1_def r1_def
    by (simp add: POST_pending_db [OF ex_required ex_select ex_row_loaded] ex_process_ok)
  note second = POST_pending_db [OF ex_required ex_select this, of ex_key "ex_img_ok" "ex_api_down" None]
  have "r1 (js ''result_image_url'') = Some ex_result_url"
    by (simp add: r1_def map_add_def)
  then show ?thesis
    by (simp add: w1_def [symmetric] second ex_process_api_down populated_def map_add_def
          ex_result_url_def)
qed

text \<open>
  Why the image API must not answer with an over-range number: \<open>1e309\<close> is parsed as an
  infinite number, passes the test of the result URL, and is written as \<open>null\<close> into the answer
  and into the row, which is then \<open>complete\<close> with nothing populated.
\<close>

lemma over_range_url_stored_as_null:
  "fst (POST ex_key (ex_env ex_img_ok ex_api_over_range None)
         (Inr (ex_payload ex_remote_url (JStr (js ''pending'')))) (ex_world (js ''pending'') JNull)) =
     \<lparr>status_code = 200,
      body = [(js ''message'', JStr (js ''Job processed successfully'')),
              (js ''result_image_url'', JNull)]\<rparr>
   \<and> (\<exists>r'. db (snd (POST ex_key (ex_env ex_img_ok ex_api_over_range None)
                       (Inr (ex_payload ex_remote_url (JStr (js ''pending''))))
                       (ex_world (js ''pending'') JNull))) ex_id = Some r'
          \<and> r' (js ''status'') = Some (JStr (js ''complete''))
          \<and> r' (js ''result_image_url'') = Some JNull
          \<and> \<not> populated r' (js ''result_image_url'') \<and> \<not> populated r' (js ''error_message''))"
proof -
  have "fst (submit_image ex_key (ex_env ex_img_ok ex_api_over_range None) ex_blob (js ''input.png'')
               (ex_world (js ''pending'') JNull)) = Inr (JNum PlusInfinity)"
    by (simp add: submit_image_def ex_env_def ex_api_over_range_def Let_def)
  then have ok: "fst (process_job ex_key (ex_env ex_img_ok ex_api_over_range None) ex_id ex_remote_url
                  (ex_world (js ''pending'') JNull)) = Inr (JNum PlusInfinity)"
    by (simp add: process_job_outcome ex_acquire)
  show ?thesis
    by (simp add: POST_pending_response [OF ex_required ex_select ex_row_loaded]
          POST_pending_db [OF ex_required ex_select ex_row_loaded] ok json_response_def
          map_add_def ex_row_def populated_def)
qed

subsection \<open>C9: falsy fields\<close>

text \<open>
  Claim C9. The check of the required fields is a check of truthiness: when the record holds
  \<open>id\<close>, \<open>input_image_url\<close> or \<open>status\<close> with the value \<open>""\<close>, \<open>0\<close>, \<open>false\<close> or \<open>null\<close>,
  both handlers answer 400 and leave the world as it was, although the field is present.
\<close>

theorem falsy_field_rejected:
  assumes "k = js ''id'' \<or> k = js ''input_image_url'' \<or> k = js ''status''"
    and "member (member (Some b) (js ''record'')) k = Some v"
    and "v = JStr [] \<or> v = JNum (Finite 0) \<or> v = JBool False \<or> v = JNull"
  shows "status_code (fst (POST key e (Inr b) w)) = 400 \<and> snd (POST key e (Inr b) w) = w
       \<and> status_code (fst (POST_2 key e (Inr b) w)) = 400 \<and> snd (POST_2 key e (Inr b) w) = w"
proof -
  from assms(2,3) have "\<not> truthy (member (member (Some b) (js ''record'')) k)" by auto
  with assms(1) have "required_fields b = None"
    by (intro required_fields_None) auto
  then show ?thesis by (simp add: POST_invalid POST_2_invalid json_response_def)
qed

theorem falsy_field_rejected_witness:
  "status_code (fst (POST ex_key (ex_env ex_img_ok ex_api_ok None)
      (Inr (ex_payload (JStr []) (JStr (js ''pending'')))) (ex_world (js ''pending'') JNull))) = 400
   \<and> snd (POST ex_key (ex_env ex_img_ok ex_api_ok None)
      (Inr (ex_payload (JStr []) (JStr (js ''pending'')))) (ex_world (js ''pending'') JNull))
     = ex_world (js ''pending'') JNull"
  using falsy_field_rejected [of "js ''input_image_url''" "ex_payload (JStr []) (JStr (js ''pending''))"
      "JStr []" ex_key "ex_env ex_img_ok ex_api_ok None" "ex_world (js ''pending'') JNull"]
  by (simp add: ex_members)

subsection \<open>C10: the routing of data URLs\<close>

text \<open>
  Claim C10, as amended. In the handler of \<open>route.ts\<close> the choice between decoding and
  downloading is made by the prefix \<open>data:\<close> alone: for an \<open>input_image_url\<close> with this
  prefix the acquisition issues no call at all and the handler issues no HTTP GET. The
  decoder throws \<open>Invalid data URL format\<close> exactly when the string is not of the shape
  \<open>data:<mime>;base64,<payload>\<close> with a non-empty mime type of letters, \<open>-\<close>, \<open>+\<close> and \<open>/\<close> and
  a non-empty payload that holds no line terminator (line feed, carriage return, U+2028,
  U+2029); a loaded pending job with such a string is answered with 500 and that text, and
  the last call of the store is the update to \<open>failed\<close> with that text.
\<close>

theorem data_url_routing:
  "(isBase64DataUrl s \<longleftrightarrow> startsWith s (js ''data:''))
   \<and> (isBase64DataUrl s \<longrightarrow> snd (acquire_image e (JStr s) w) = w)
   \<and> (isBase64DataUrl s \<and> required_fields b = Some (i, JStr s, st) \<longrightarrow>
        (\<forall>x. HttpGet x \<in> set (calls (snd (POST key e (Inr b) w))) \<longrightarrow> HttpGet x \<in> set (calls w)))
   \<and> (base64DataUrlToBlob m s = Inl InvalidDataUrl \<longleftrightarrow>
        \<not> (\<exists>mime payload. data_url_shape s mime payload \<and> \<not> list_ex is_line_terminator payload))
   \<and> (isBase64DataUrl s \<and> required_fields b = Some (i, JStr s, JStr (js ''pending''))
        \<and> select_failure e = None \<and> db w i = Some r
        \<and> \<not> (\<exists>mime payload. data_url_shape s mime payload \<and> \<not> list_ex is_line_terminator payload) \<longrightarrow>
          fst (POST key e (Inr b) w) =
            json_response [(js ''error'', JStr (js ''Job processing failed'')),
                           (js ''details'', JStr (js ''Invalid data URL format''))] 500
          \<and> (\<exists>cs. calls (snd (POST key e (Inr b) w)) =
                  cs @ [Update i [(js ''status'', JStr (js ''failed'')),
                                  (js ''error_message'', JStr (js ''Invalid data URL format'')),
                                  (js ''processed_at'', JStr (toISOString e ToFailed))]]))"
proof (intro conjI impI allI)
  show "isBase64DataUrl s \<longleftrightarrow> startsWith s (js ''data:'')" by (simp add: isBase64DataUrl_def)
  show "snd (acquire_image e (JStr s) w) = w" if "isBase64DataUrl s"
    using that by (simp add: acquire_image_data_url)
  show "HttpGet x \<in> set (calls w)"
    if "isBase64DataUrl s \<and> required_fields b = Some (i, JStr s, st)"
      and "HttpGet x \<in> set (calls (snd (POST key e (Inr b) w)))" for x
    using that POST_data_url_no_get by blast
  show "base64DataUrlToBlob m s = Inl InvalidDataUrl \<longleftrightarrow>
        \<not> (\<exists>mime payload. data_url_shape s mime payload \<and> \<not> list_ex is_line_terminator payload)"
    by (rule invalid_data_url_iff)
next
  assume a: "isBase64DataUrl s \<and> required_fields b = Some (i, JStr s, JStr (js ''pending''))
        \<and> select_failure e = None \<and> db w i = Some r
        \<and> \<not> (\<exists>mime payload. data_url_shape s mime payload \<and> \<not> list_ex is_line_terminator payload)"
  then have "base64DataUrlToBlob (atob_message e) s = Inl InvalidDataUrl"
    by (simp add: invalid_data_url_iff)
  with a have err: "fst (process_job key e i (JStr s) w) = Inl InvalidDataUrl"
    by (simp add: process_job_outcome acquire_image_data_url)
  from a have rf: "required_fields b = Some (i, JStr s, JStr (js ''pending''))"
    and sel: "select_failure e = None" and r: "db w i = Some r" by simp_all
  show "fst (POST key e (Inr b) w) =
            json_response [(js ''error'', JStr (js ''Job processing failed'')),
                           (js ''details'', JStr (js ''Invalid data URL format''))] 500"
    by (simp add: POST_pending_response [OF rf sel r] err)
  show "\<exists>cs. calls (snd (POST key e (Inr b) w)) =
                  cs @ [Update i [(js ''status'', JStr (js ''failed'')),
                                  (js ''error_message'', JStr (js ''Invalid data URL format'')),
                                  (js ''processed_at'', JStr (toISOString e ToFailed))]]"
    using POST_pending_calls_failed [OF rf sel r err] by simp
qed

theorem data_url_routing_witness:
  "fst (POST ex_key (ex_env ex_img_ok ex_api_ok None)
         (Inr (ex_payload (JStr (js ''data:text/plain,hello'')) (JStr (js ''pending''))))
         (ex_world (js ''pending'') JNull)) =
     json_response [(js ''error'', JStr (js ''Job processing failed'')),
                    (js ''details'', JStr (js ''Invalid data URL format''))] 500
   \<and> (\<forall>x. HttpGet x \<notin> set (calls (snd (POST ex_key (ex_env ex_img_ok ex_api_ok None)
         (Inr (ex_payload (JStr (js ''data:text/plain,hello'')) (JStr (js ''pending''))))
         (ex_world (js ''pending'') JNull)))))"
proof -
  let ?s = "js ''data:text/plain,hello''"
  note t = data_url_routing [of ?s "ex_env ex_img_ok ex_api_ok None" "ex_world (js ''pending'') JNull"
      "ex_payload (JStr ?s) (JStr (js ''pending''))" ex_id "JStr (js ''pending'')" ex_key
      "js ''InvalidCharacterError''" "ex_row (js ''pending'') JNull"]
  have d: "isBase64DataUrl ?s" by (simp add: isBase64DataUrl_def startsWith_js)
  have rf: "required_fields (ex_payload (JStr ?s) (JStr (js ''pending''))) =
              Some (ex_id, JStr ?s, JStr (js ''pending''))"
    by (rule ex_required_gen) simp_all
  have "base64DataUrlToBlob (js ''InvalidCharacterError'') ?s = Inl InvalidDataUrl"
    by (simp add: base64DataUrlToBlob_def ex_malformed)
  with t have no: "\<not> (\<exists>mime payload. data_url_shape ?s mime payload
                        \<and> \<not> list_ex is_line_terminator payload)" by blast
  have c: "calls (ex_world (js ''pending'') JNull) = []" by (simp add: ex_world_def)
  from t d rf no ex_select ex_row_loaded show ?thesis
    unfolding c by (metis empty_iff list.set(1))
qed

text \<open>
  Claim C10 as stated fails for a payload with a line terminator: the string has the shape
  \<open>data:<mime>;base64,<payload>\<close> with a non-empty payload and a mime type of letters and
  \<open>/\<close>, and yet the decoder throws \<open>Invalid data URL format\<close>.
\<close>

theorem trailing_newline_rejected_counterexample:
  "data_url_shape (js ''data:image/png;base64,QUJD'' @ [10]) (js ''image/png'') (js ''QUJD'' @ [10])
   \<and> base64DataUrlToBlob (js ''InvalidCharacterError'') (js ''data:image/png;base64,QUJD'' @ [10]) =
       Inl InvalidDataUrl"
proof -
  let ?s = "js ''data:image/png;base64,QUJD'' @ [10]"
  have shape: "data_url_shape ?s (js ''image/png'') (js ''QUJD'' @ [10])"
    by (simp add: data_url_shape_def ex_mime js_append)
  have "list_ex is_line_terminator payload" if "data_url_shape ?s mime payload" for mime payload
  proof -
    from that have "?s = (js ''data:'' @ mime @ js '';base64,'') @ payload" and "payload \<noteq> []"
      by (simp_all add: data_url_shape_def)
    then have "last payload = last ?s" by (metis last_appendR)
    then have "last payload = 10" by simp
    with \<open>payload \<noteq> []\<close> have "10 \<in> set payload" by (metis last_in_set)
    then show ?thesis by (auto simp: list_ex_iff is_line_terminator_def)
  qed
  then have "base64DataUrlToBlob (js ''InvalidCharacterError'') ?s = Inl InvalidDataUrl"
    unfolding invalid_data_url_iff by blast
  with shape show ?thesis by simp
qed

end
